theory Spec2Isabelle
  imports Main "HOL-Library.Sublist"
begin

text \<open>
  The content extraction and the three renderers of \<open>index.js\<close>, as functions on the
  parsed document and on the content object, and the properties the specification
  states about them. Fetching, parsing, sanitising and writing files are outside.
\<close>

section \<open>JavaScript strings and values\<close>

text \<open>
  A JavaScript string is a sequence of UTF-16 code units and \<open>.length\<close> counts code
  units, so strings are lists of code units (natural numbers; every real code unit is
  below 65536). \<open>str\<close> embeds an ASCII literal of the source.
\<close>

type_synonym jsstring = "nat list"

definition str :: "string \<Rightarrow> jsstring" where
  "str s = map of_char s"

text \<open>
  The code units that \<open>String.prototype.trim\<close> strips and that \<open>\s\<close> matches: the
  WhiteSpace and LineTerminator productions of ECMAScript.
\<close>

definition isWhiteSpace :: "nat \<Rightarrow> bool" where
  "isWhiteSpace c \<longleftrightarrow>
     c = 9 \<or> c = 10 \<or> c = 11 \<or> c = 12 \<or> c = 13 \<or> c = 32 \<or> c = 160 \<or> c = 5760 \<or>
     (8192 \<le> c \<and> c \<le> 8202) \<or> c = 8232 \<or> c = 8233 \<or> c = 8239 \<or> c = 8287 \<or>
     c = 12288 \<or> c = 65279"

definition trim :: "jsstring \<Rightarrow> jsstring" where
  "trim s = rev (dropWhile isWhiteSpace (rev (dropWhile isWhiteSpace s)))"

text \<open>
  \<open>toLowerCase\<close>, as far as a comparison with the ASCII keys of the dispatch tables can
  tell: the letters \<open>A..Z\<close> and U+212A KELVIN SIGN (code unit 8490, whose lower case is
  \<open>k\<close>) are mapped. Every other code unit is kept; JavaScript changes some of them, but
  never into ASCII letters alone.
\<close>

definition toLowerCase :: "jsstring \<Rightarrow> jsstring" where
  "toLowerCase s =
     map (\<lambda>c. if 65 \<le> c \<and> c \<le> 90 then c + 32 else if c = 8490 then 107 else c) s"

text \<open>\<open>Array.prototype.join\<close> on an array of strings.\<close>

fun join :: "jsstring \<Rightarrow> jsstring list \<Rightarrow> jsstring" where
  "join sep [] = []"
| "join sep [x] = x"
| "join sep (x # y # ys) = x @ sep @ join sep (y # ys)"

text \<open>Decimal digits of a number, as a template literal prints it.\<close>

function decimal :: "nat \<Rightarrow> jsstring" where
  "decimal n = (if n < 10 then [48 + n] else decimal (n div 10) @ [48 + n mod 10])"
  by pat_completeness auto
termination
  by (relation "measure (\<lambda>n. n)") auto

declare decimal.simps [simp del]

text \<open>\<open>`${v}`\<close> for a property that is a string or \<open>undefined\<close>.\<close>

definition tpl :: "jsstring option \<Rightarrow> jsstring" where
  "tpl v = (case v of None \<Rightarrow> str ''undefined'' | Some s \<Rightarrow> s)"

text \<open>\<open>a || b\<close> on values that are strings or \<open>undefined\<close>: the empty string is falsy.\<close>

definition js_or :: "jsstring option \<Rightarrow> jsstring option \<Rightarrow> jsstring option" where
  "js_or a b = (case a of None \<Rightarrow> b | Some s \<Rightarrow> if s = [] then b else Some s)"

datatype js_error = TypeError

text \<open>
  The values a handler looked up in a dispatch table can return: \<open>JObject\<close> stands for
  any object (truthy, printed as \<open>[object Object]\<close>).
\<close>

datatype jsval = JUndefined | JFalse | JString jsstring | JObject

definition truthy :: "jsval \<Rightarrow> bool" where
  "truthy v = (case v of JUndefined \<Rightarrow> False | JFalse \<Rightarrow> False
                | JString s \<Rightarrow> s \<noteq> [] | JObject \<Rightarrow> True)"

definition toString :: "jsval \<Rightarrow> jsstring" where
  "toString v = (case v of JUndefined \<Rightarrow> [] | JFalse \<Rightarrow> str ''false''
                  | JString s \<Rightarrow> s | JObject \<Rightarrow> str ''[object Object]'')"

text \<open>
  The dispatch tables of the source are object literals, so \<open>table[name]\<close> also finds
  the properties every object inherits from \<open>Object.prototype\<close>.
  \<open>inheritedCall name\<close> is the outcome of \<open>table[name]?.(args)\<close> for a name that is
  not a key of the literal: \<open>None\<close> when \<open>Object.prototype\<close> has no such property
  (the optional call yields \<open>undefined\<close>), otherwise what calling the inherited
  property does. \<open>constructor\<close> and \<open>valueOf\<close> return an object, \<open>toString\<close> and
  \<open>toLocaleString\<close> the string \<open>[object Object]\<close>; \<open>hasOwnProperty\<close>,
  \<open>isPrototypeOf\<close> and \<open>propertyIsEnumerable\<close> return \<open>false\<close>; the lookup
  functions return \<open>undefined\<close>; the define functions throw because no accessor
  function is passed; \<open>__proto__\<close> is an object, not a function, so calling it throws.
\<close>

definition inheritedCall :: "jsstring \<Rightarrow> (js_error + jsval) option" where
  "inheritedCall name =
    (if name = str ''constructor'' then Some (Inr JObject)
     else if name = str ''valueOf'' then Some (Inr JObject)
     else if name = str ''toString'' then Some (Inr (JString (str ''[object Object]'')))
     else if name = str ''toLocaleString'' then Some (Inr (JString (str ''[object Object]'')))
     else if name = str ''hasOwnProperty'' then Some (Inr JFalse)
     else if name = str ''isPrototypeOf'' then Some (Inr JFalse)
     else if name = str ''propertyIsEnumerable'' then Some (Inr JFalse)
     else if name = str ''__lookupGetter__'' then Some (Inr JUndefined)
     else if name = str ''__lookupSetter__'' then Some (Inr JUndefined)
     else if name = str ''__defineGetter__'' then Some (Inl TypeError)
     else if name = str ''__defineSetter__'' then Some (Inl TypeError)
     else if name = str ''__proto__'' then Some (Inl TypeError)
     else None)"

section \<open>The parsed document\<close>

text \<open>
  The tree the parser hands over: text nodes and elements with a tag name, attributes
  and children. A loaded document is the list of the root's children.
\<close>

datatype node =
    Text jsstring
  | Element (tagName: jsstring) (attribs: "(jsstring \<times> jsstring) list") (children: "node list")

type_synonym document = "node list"

text \<open>\<open>$el.text()\<close>: the text of all descendant text nodes, in document order.\<close>

fun text_of :: "node \<Rightarrow> jsstring" where
  "text_of (Text s) = s"
| "text_of (Element t a cs) = concat (map text_of cs)"

text \<open>
  The elements of a subtree in document order, each with the tag names of its ancestors
  (what \<open>$el.parents()\<close> walks), nearest first.
\<close>

fun elements :: "jsstring list \<Rightarrow> node \<Rightarrow> (jsstring list \<times> node) list" where
  "elements anc (Text s) = []"
| "elements anc (Element t a cs) =
     (anc, Element t a cs) # concat (map (elements (t # anc)) cs)"

definition allElements :: "document \<Rightarrow> (jsstring list \<times> node) list" where
  "allElements doc = concat (map (elements []) doc)"

text \<open>\<open>el.find('*')\<close>: the proper descendants of an element.\<close>

definition findAll :: "jsstring list \<times> node \<Rightarrow> (jsstring list \<times> node) list" where
  "findAll p = tl (elements (fst p) (snd p))"

text \<open>The whitespace-separated tokens of an attribute value (class selectors).\<close>

fun tokens :: "jsstring \<Rightarrow> jsstring \<Rightarrow> jsstring list" where
  "tokens cur [] = (if cur = [] then [] else [cur])"
| "tokens cur (c # cs) =
     (if isWhiteSpace c then (if cur = [] then tokens [] cs else cur # tokens [] cs)
      else tokens (cur @ [c]) cs)"

definition hasClass :: "jsstring \<Rightarrow> node \<Rightarrow> bool" where
  "hasClass cls el =
     (case map_of (attribs el) (str ''class'') of
        None \<Rightarrow> False
      | Some v \<Rightarrow> cls \<in> set (tokens [] v))"

text \<open>The selector \<open>main, .main-content, #main, article, [role="main"], body\<close>.\<close>

definition matchesMain :: "node \<Rightarrow> bool" where
  "matchesMain el \<longleftrightarrow>
     tagName el = str ''main'' \<or> hasClass (str ''main-content'') el \<or>
     map_of (attribs el) (str ''id'') = Some (str ''main'') \<or>
     tagName el = str ''article'' \<or>
     map_of (attribs el) (str ''role'') = Some (str ''main'') \<or>
     tagName el = str ''body''"

text \<open>\<open>$(selector).first()\<close>: the first match in document order, if any.\<close>

definition mainContent :: "document \<Rightarrow> (jsstring list \<times> node) option" where
  "mainContent doc = find (\<lambda>p. matchesMain (snd p)) (allElements doc)"

section \<open>Content extraction\<close>

text \<open>
  A section object, seen through the three properties the program reads. The
  extractors build \<open>{type, content}\<close> and \<open>{type, items}\<close>; a property that is absent
  reads as \<open>undefined\<close>.
\<close>

record sect =
  stype :: "jsstring option"
  content :: "jsstring option"
  items :: "jsstring list option"

definition contentSection :: "jsstring \<Rightarrow> jsstring \<Rightarrow> sect" where
  "contentSection t c = \<lparr>stype = Some t, content = Some c, items = None\<rparr>"

definition itemsSection :: "jsstring \<Rightarrow> jsstring list \<Rightarrow> sect" where
  "itemsSection t xs = \<lparr>stype = Some t, content = None, items = Some xs\<rparr>"

text \<open>An object or string without any of the three properties.\<close>

definition bareSection :: sect where
  "bareSection = \<lparr>stype = None, content = None, items = None\<rparr>"

definition isValidText :: "jsstring \<Rightarrow> nat \<Rightarrow> bool" where
  "isValidText t minLength \<longleftrightarrow> t \<noteq> [] \<and> length (trim t) \<ge> minLength"

definition extractHeading :: "node \<Rightarrow> jsstring \<Rightarrow> sect option" where
  "extractHeading el tag =
     (let c = trim (text_of el) in if c \<noteq> [] then Some (contentSection tag c) else None)"

text \<open>\<open>isValidText\<close> is called without a second argument: the minimum is its default, 3.\<close>

definition extractParagraph :: "node \<Rightarrow> sect option" where
  "extractParagraph el =
     (let c = trim (text_of el)
      in if isValidText c 3 then Some (contentSection (str ''paragraph'') c) else None)"

definition isLi :: "node \<Rightarrow> bool" where
  "isLi n = (case n of Text s \<Rightarrow> False | Element t a cs \<Rightarrow> t = str ''li'')"

definition extractList :: "node \<Rightarrow> jsstring \<Rightarrow> sect option" where
  "extractList el ty =
     (let xs = filter (\<lambda>s. s \<noteq> []) (map (\<lambda>li. trim (text_of li)) (filter isLi (children el)))
      in if xs \<noteq> [] then Some (itemsSection ty xs) else None)"

definition extractQuote :: "node \<Rightarrow> sect option" where
  "extractQuote el =
     (let c = trim (text_of el) in if c \<noteq> [] then Some (contentSection (str ''quote'') c) else None)"

text \<open>
  \<open>extractors[tagName]?.() || null\<close>. A name that is no key of the table is looked up
  in \<open>Object.prototype\<close>; a truthy result of such a call is returned as the section
  and has none of the three properties.
\<close>

definition extractSectionByType :: "node \<Rightarrow> jsstring \<Rightarrow> js_error + sect option" where
  "extractSectionByType el tag =
    (if tag = str ''h1'' then Inr (extractHeading el (str ''h1''))
     else if tag = str ''h2'' then Inr (extractHeading el (str ''h2''))
     else if tag = str ''h3'' then Inr (extractHeading el (str ''h3''))
     else if tag = str ''h4'' then Inr (extractHeading el (str ''h4''))
     else if tag = str ''h5'' then Inr (extractHeading el (str ''h5''))
     else if tag = str ''h6'' then Inr (extractHeading el (str ''h6''))
     else if tag = str ''p'' then Inr (extractParagraph el)
     else if tag = str ''ul'' then Inr (extractList el (str ''bullet-list''))
     else if tag = str ''ol'' then Inr (extractList el (str ''numbered-list''))
     else if tag = str ''blockquote'' then Inr (extractQuote el)
     else (case inheritedCall tag of
             None \<Rightarrow> Inr None
           | Some (Inl e) \<Rightarrow> Inl e
           | Some (Inr v) \<Rightarrow> Inr (if truthy v then Some bareSection else None)))"

text \<open>
  The deduplication key:
  \<open>section.type + ':' + (section.content || section.items?.join(',') || '')\<close>.
\<close>

definition sectionKey :: "sect \<Rightarrow> jsstring" where
  "sectionKey s =
     tpl (stype s) @ str '':'' @
     tpl (js_or (js_or (content s) (map_option (join (str '','')) (items s))) (Some []))"

text \<open>\<open>$el.parents('ul, ol, table').length > 0\<close>, on the ancestors' tag names.\<close>

definition insideListOrTable :: "jsstring list \<Rightarrow> bool" where
  "insideListOrTable anc =
     list_ex (\<lambda>t. t = str ''ul'' \<or> t = str ''ol'' \<or> t = str ''table'') anc"

text \<open>
  The state of the traversal: the \<open>sections\<close> array (\<open>pushed\<close>) and the \<open>seen\<close> set. One call of
  the \<open>each\<close> callback either leaves it, extends it, or throws.
\<close>

record extraction =
  pushed :: "sect list"
  seen :: "jsstring set"

definition visit :: "extraction \<Rightarrow> jsstring list \<times> node \<Rightarrow> js_error + extraction" where
  "visit st p =
    (let tag = toLowerCase (tagName (snd p)) in
     if insideListOrTable (fst p) then Inr st
     else (case extractSectionByType (snd p) tag of
             Inl e \<Rightarrow> Inl e
           | Inr None \<Rightarrow> Inr st
           | Inr (Some s) \<Rightarrow>
               (let key = sectionKey s in
                if key \<notin> seen st
                then Inr \<lparr>pushed = pushed st @ [s], seen = insert key (seen st)\<rparr>
                else Inr st)))"

fun each :: "extraction \<Rightarrow> (jsstring list \<times> node) list \<Rightarrow> js_error + extraction" where
  "each st [] = Inr st"
| "each st (p # ps) = (case visit st p of Inl e \<Rightarrow> Inl e | Inr st' \<Rightarrow> each st' ps)"

text \<open>The elements the traversal visits: none when the selector matches nothing.\<close>

definition scope :: "document \<Rightarrow> (jsstring list \<times> node) list" where
  "scope doc = (case mainContent doc of None \<Rightarrow> [] | Some p \<Rightarrow> findAll p)"

definition extractSections :: "document \<Rightarrow> js_error + sect list" where
  "extractSections doc =
     (case each \<lparr>pushed = [], seen = {}\<rparr> (scope doc) of
        Inl e \<Rightarrow> Inl e
      | Inr st \<Rightarrow> Inr (pushed st))"

section \<open>Rendering\<close>

text \<open>
  \<open>escapeHtml\<close>: \<open>text.replace(/[&<>"']/g, (m) => map[m])\<close>. The code units are
  38 \<open>&\<close>, 60 \<open><\<close>, 62 \<open>>\<close>, 34 the double quote and 39 the apostrophe.
\<close>

definition escapeChar :: "nat \<Rightarrow> jsstring" where
  "escapeChar c =
    (if c = 38 then str ''&amp;''
     else if c = 60 then str ''&lt;''
     else if c = 62 then str ''&gt;''
     else if c = 34 then str ''&quot;''
     else if c = 39 then str ''&#039;''
     else [c])"

definition escapeHtml :: "jsstring \<Rightarrow> jsstring" where
  "escapeHtml t = concat (map escapeChar t)"

text \<open>
  The date a \<open>Date\<close> shows in local time, and
  \<open>toLocaleDateString('de-DE', {year: 'numeric', month: 'long', day: 'numeric'})\<close>,
  which prints it as in \<open>15. Januar 2025\<close>.
\<close>

datatype month = January | February | March | April | May | June | July | August
  | September | October | November | December

record jsdate =
  day :: nat
  month :: month
  year :: nat

fun monthName :: "month \<Rightarrow> jsstring" where
  "monthName January = str ''Januar''"
| "monthName February = str ''Februar''"
| "monthName March = str ''M'' @ [228] @ str ''rz''"
| "monthName April = str ''April''"
| "monthName May = str ''Mai''"
| "monthName June = str ''Juni''"
| "monthName July = str ''Juli''"
| "monthName August = str ''August''"
| "monthName September = str ''September''"
| "monthName October = str ''Oktober''"
| "monthName November = str ''November''"
| "monthName December = str ''Dezember''"

text \<open>
  \<open>formatDate\<close> takes the date to print. Every renderer calls it without an argument,
  so the default \<open>new Date()\<close> applies: the renderers below receive that clock reading
  as their first argument \<open>now\<close>.
\<close>

definition formatDate :: "jsdate \<Rightarrow> jsstring" where
  "formatDate d = decimal (day d) @ str ''. '' @ monthName (month d) @ str '' '' @ decimal (year d)"

text \<open>The content object of \<open>scrapeContent\<close> and the options of the generators.\<close>

record meta =
  description :: jsstring
  url :: jsstring
  scrapedAt :: jsstring

record contentDoc =
  title :: jsstring
  metadata :: meta
  sections :: "sect list"

record options =
  footerText :: "jsstring option"

text \<open>\<open>value || ''\<close> on the result of a handler.\<close>

definition orEmpty :: "js_error + jsval \<Rightarrow> js_error + jsval" where
  "orEmpty r = (case r of Inl e \<Rightarrow> Inl e
                | Inr v \<Rightarrow> Inr (if truthy v then v else JString []))"

text \<open>
  \<open>renderers[name]?.(section) || ''\<close> for a name that is no key of the table literal.
\<close>

definition dispatchMiss :: "jsstring \<Rightarrow> js_error + jsval" where
  "dispatchMiss name = (case inheritedCall name of None \<Rightarrow> Inr (JString []) | Some r \<Rightarrow> orEmpty r)"

fun mapE :: "('a \<Rightarrow> js_error + 'b) \<Rightarrow> 'a list \<Rightarrow> js_error + 'b list" where
  "mapE f [] = Inr []"
| "mapE f (x # xs) =
     (case f x of
        Inl e \<Rightarrow> Inl e
      | Inr y \<Rightarrow> (case mapE f xs of Inl e \<Rightarrow> Inl e | Inr ys \<Rightarrow> Inr (y # ys)))"

subsection \<open>Styled document (HTML)\<close>

text \<open>
  \<open>`<h1>${escapeHtml(s.content)}</h1>`\<close>: \<open>escapeHtml\<close> calls \<open>text.replace\<close>, which
  throws a TypeError when the property is \<open>undefined\<close>; so does \<open>s.items.map\<close>.
\<close>

definition htmlContent :: "string \<Rightarrow> sect \<Rightarrow> js_error + jsval" where
  "htmlContent tag s =
    (case content s of
       None \<Rightarrow> Inl TypeError
     | Some c \<Rightarrow> Inr (JString (str ''<'' @ str tag @ str ''>'' @ escapeHtml c @
                               str ''</'' @ str tag @ str ''>'')))"

definition htmlItems :: "string \<Rightarrow> sect \<Rightarrow> js_error + jsval" where
  "htmlItems tag s =
    (case items s of
       None \<Rightarrow> Inl TypeError
     | Some xs \<Rightarrow>
         Inr (JString (str ''<'' @ str tag @ str ''>'' @
                       concat (map (\<lambda>item. str ''<li>'' @ escapeHtml item @ str ''</li>'') xs) @
                       str ''</'' @ str tag @ str ''>'')))"

definition renderSection :: "sect \<Rightarrow> js_error + jsval" where
  "renderSection s =
    (let ty = tpl (stype s) in
     if ty = str ''h1'' then orEmpty (htmlContent ''h1'' s)
     else if ty = str ''h2'' then orEmpty (htmlContent ''h2'' s)
     else if ty = str ''h3'' then orEmpty (htmlContent ''h3'' s)
     else if ty = str ''h4'' then orEmpty (htmlContent ''h4'' s)
     else if ty = str ''paragraph'' then orEmpty (htmlContent ''p'' s)
     else if ty = str ''bullet-list'' then orEmpty (htmlItems ''ul'' s)
     else if ty = str ''numbered-list'' then orEmpty (htmlItems ''ol'' s)
     else if ty = str ''quote'' then orEmpty (htmlContent ''blockquote'' s)
     else dispatchMiss ty)"

text \<open>\<open>sections.map(f).join('\n')\<close>: \<open>join\<close> converts every element to a string.\<close>

definition mapJoin :: "(sect \<Rightarrow> js_error + jsval) \<Rightarrow> sect list \<Rightarrow> js_error + jsstring" where
  "mapJoin f secs =
    (case mapE f secs of
       Inl e \<Rightarrow> Inl e
     | Inr vs \<Rightarrow> Inr (join (str ''\<newline>'') (map toString vs)))"

definition renderSections :: "sect list \<Rightarrow> js_error + jsstring" where
  "renderSections secs = mapJoin renderSection secs"

definition renderHeader :: "jsdate \<Rightarrow> contentDoc \<Rightarrow> jsstring" where
  \<open>renderHeader now c =
     str ''\<newline>  <div class="header">\<newline>    <h1>'' @ escapeHtml (title c) @
     str ''</h1>\<newline>    <div class="metadata">\<newline>      <p>Quelle: '' @
     escapeHtml (url (metadata c)) @
     str ''</p>\<newline>      <p>Generiert am: '' @ formatDate now @
     str ''</p>\<newline>    </div>\<newline>  </div>\<newline>''\<close>

text \<open>The parameter's default \<open>''\<close> replaces \<open>undefined\<close>.\<close>

definition renderFooter :: "jsstring option \<Rightarrow> jsstring" where
  \<open>renderFooter ft =
     str ''\<newline>  <div class="footer">\<newline>    <p>'' @
     escapeHtml (case ft of None \<Rightarrow> [] | Some t \<Rightarrow> t) @
     str ''</p>\<newline>  </div>\<newline>''\<close>

definition getStyles :: jsstring where
  "getStyles =
     str ''\<newline>'' @
     str ''  @page {\<newline>'' @
     str ''    margin: 2cm;\<newline>'' @
     str ''  }\<newline>'' @
     str ''  body {\<newline>'' @
     str ''    font-family: '' @ [39] @ str ''Helvetica Neue'' @ [39] @ str '', Arial, sans-serif;\<newline>'' @
     str ''    line-height: 1.6;\<newline>'' @
     str ''    color: #333;\<newline>'' @
     str ''    font-size: 11pt;\<newline>'' @
     str ''  }\<newline>'' @
     str ''  h1 {\<newline>'' @
     str ''    font-size: 24pt;\<newline>'' @
     str ''    color: #1a1a1a;\<newline>'' @
     str ''    margin-top: 0;\<newline>'' @
     str ''    margin-bottom: 20px;\<newline>'' @
     str ''    page-break-after: avoid;\<newline>'' @
     str ''  }\<newline>'' @
     str ''  h2 {\<newline>'' @
     str ''    font-size: 18pt;\<newline>'' @
     str ''    color: #2a2a2a;\<newline>'' @
     str ''    margin-top: 24px;\<newline>'' @
     str ''    margin-bottom: 12px;\<newline>'' @
     str ''    page-break-after: avoid;\<newline>'' @
     str ''  }\<newline>'' @
     str ''  h3 {\<newline>'' @
     str ''    font-size: 14pt;\<newline>'' @
     str ''    color: #3a3a3a;\<newline>'' @
     str ''    margin-top: 18px;\<newline>'' @
     str ''    margin-bottom: 10px;\<newline>'' @
     str ''    page-break-after: avoid;\<newline>'' @
     str ''  }\<newline>'' @
     str ''  p {\<newline>'' @
     str ''    margin-bottom: 12px;\<newline>'' @
     str ''    text-align: justify;\<newline>'' @
     str ''    orphans: 3;\<newline>'' @
     str ''    widows: 3;\<newline>'' @
     str ''  }\<newline>'' @
     str ''  ul, ol {\<newline>'' @
     str ''    margin-bottom: 12px;\<newline>'' @
     str ''    padding-left: 25px;\<newline>'' @
     str ''  }\<newline>'' @
     str ''  li {\<newline>'' @
     str ''    margin-bottom: 6px;\<newline>'' @
     str ''  }\<newline>'' @
     str ''  blockquote {\<newline>'' @
     str ''    margin: 15px 0;\<newline>'' @
     str ''    padding: 10px 20px;\<newline>'' @
     str ''    border-left: 4px solid #ddd;\<newline>'' @
     str ''    background: #f9f9f9;\<newline>'' @
     str ''    font-style: italic;\<newline>'' @
     str ''  }\<newline>'' @
     str ''  .header {\<newline>'' @
     str ''    text-align: center;\<newline>'' @
     str ''    margin-bottom: 30px;\<newline>'' @
     str ''    padding-bottom: 20px;\<newline>'' @
     str ''    border-bottom: 2px solid #333;\<newline>'' @
     str ''  }\<newline>'' @
     str ''  .metadata {\<newline>'' @
     str ''    font-size: 9pt;\<newline>'' @
     str ''    color: #666;\<newline>'' @
     str ''    margin-top: 10px;\<newline>'' @
     str ''  }\<newline>'' @
     str ''  .footer {\<newline>'' @
     str ''    margin-top: 40px;\<newline>'' @
     str ''    padding-top: 15px;\<newline>'' @
     str ''    border-top: 1px solid #ccc;\<newline>'' @
     str ''    font-size: 9pt;\<newline>'' @
     str ''    color: #666;\<newline>'' @
     str ''    text-align: center;\<newline>'' @
     str ''  }\<newline>''"

definition generateHTML :: "jsdate \<Rightarrow> contentDoc \<Rightarrow> options \<Rightarrow> js_error + jsstring" where
  \<open>generateHTML now c opts =
    (case renderSections (sections c) of
       Inl e \<Rightarrow> Inl e
     | Inr body \<Rightarrow>
         Inr (str ''\<newline>  <!DOCTYPE html>\<newline>  <html lang="de">\<newline>  <head>\<newline>'' @
              str ''    <meta charset="UTF-8">\<newline>    <title>'' @ escapeHtml (title c) @
              str ''</title>\<newline>    <style>'' @ getStyles @
              str ''</style>\<newline>  </head>\<newline>  <body>\<newline>    '' @
              renderHeader now c @ str ''\<newline>    '' @ body @ str ''\<newline>    '' @
              renderFooter (footerText opts) @
              str ''\<newline>  </body>\<newline>  </html>\<newline>''))\<close>

subsection \<open>Markdown\<close>

text \<open>A template literal prints an \<open>undefined\<close> property as \<open>undefined\<close>.\<close>

definition mdHeading :: "string \<Rightarrow> sect \<Rightarrow> js_error + jsval" where
  "mdHeading marks s = Inr (JString (str marks @ str '' '' @ tpl (content s) @ str ''\<newline>''))"

definition numbered :: "jsstring list \<Rightarrow> jsstring list" where
  "numbered xs = map (\<lambda>(i, item). decimal (i + 1) @ str ''. '' @ item) (enumerate 0 xs)"

definition itemLines :: "(jsstring list \<Rightarrow> jsstring list) \<Rightarrow> sect \<Rightarrow> js_error + jsval" where
  "itemLines f s =
    (case items s of
       None \<Rightarrow> Inl TypeError
     | Some xs \<Rightarrow> Inr (JString (join (str ''\<newline>'') (f xs) @ str ''\<newline>'')))"

definition renderSectionAsMarkdown :: "sect \<Rightarrow> js_error + jsval" where
  "renderSectionAsMarkdown s =
    (let ty = tpl (stype s) in
     if ty = str ''h1'' then orEmpty (mdHeading ''#'' s)
     else if ty = str ''h2'' then orEmpty (mdHeading ''##'' s)
     else if ty = str ''h3'' then orEmpty (mdHeading ''###'' s)
     else if ty = str ''h4'' then orEmpty (mdHeading ''####'' s)
     else if ty = str ''h5'' then orEmpty (mdHeading ''#####'' s)
     else if ty = str ''h6'' then orEmpty (mdHeading ''######'' s)
     else if ty = str ''paragraph''
       then orEmpty (Inr (JString (tpl (content s) @ str ''\<newline>'')))
     else if ty = str ''bullet-list''
       then orEmpty (itemLines (map (\<lambda>item. str ''- '' @ item)) s)
     else if ty = str ''numbered-list'' then orEmpty (itemLines numbered s)
     else if ty = str ''quote''
       then orEmpty (Inr (JString (str ''> '' @ tpl (content s) @ str ''\<newline>'')))
     else dispatchMiss ty)"

text \<open>\<open>if (options.footerText)\<close>: a footer that is absent or empty is falsy.\<close>

definition footerGiven :: "options \<Rightarrow> jsstring option" where
  "footerGiven opts = js_or (footerText opts) None"

definition generateMarkdown :: "jsdate \<Rightarrow> contentDoc \<Rightarrow> options \<Rightarrow> js_error + jsstring" where
  "generateMarkdown now c opts =
    (case mapJoin renderSectionAsMarkdown (sections c) of
       Inl e \<Rightarrow> Inl e
     | Inr body \<Rightarrow>
         Inr (str ''# '' @ title c @ str ''\<newline>\<newline>'' @
              str ''**Source:** '' @ url (metadata c) @ str ''\<newline>'' @
              str ''**Generated:** '' @ formatDate now @ str ''\<newline>\<newline>'' @
              body @
              (case footerGiven opts of
                 None \<Rightarrow> []
               | Some ft \<Rightarrow> str ''\<newline>---\<newline>\<newline>'' @ ft @ str ''\<newline>'')))"

subsection \<open>Plain text\<close>

text \<open>
  \<open>`${s.content}\n${'='.repeat(s.content.length)}\n`\<close>: reading \<open>length\<close> of an
  \<open>undefined\<close> property throws.
\<close>

definition underlined :: "nat \<Rightarrow> sect \<Rightarrow> js_error + jsval" where
  "underlined ch s =
    (case content s of
       None \<Rightarrow> Inl TypeError
     | Some c \<Rightarrow> Inr (JString (c @ str ''\<newline>'' @ replicate (length c) ch @ str ''\<newline>'')))"

definition plainLine :: "sect \<Rightarrow> js_error + jsval" where
  "plainLine s = Inr (JString (tpl (content s) @ str ''\<newline>''))"

text \<open>61 is \<open>=\<close>, 45 is \<open>-\<close>, 8226 the bullet and 9472 the box-drawing dash of the footer rule.\<close>

definition renderSectionAsPlainText :: "sect \<Rightarrow> js_error + jsval" where
  "renderSectionAsPlainText s =
    (let ty = tpl (stype s) in
     if ty = str ''h1'' then orEmpty (underlined 61 s)
     else if ty = str ''h2'' then orEmpty (underlined 45 s)
     else if ty = str ''h3'' then orEmpty (plainLine s)
     else if ty = str ''h4'' then orEmpty (plainLine s)
     else if ty = str ''h5'' then orEmpty (plainLine s)
     else if ty = str ''h6'' then orEmpty (plainLine s)
     else if ty = str ''paragraph'' then orEmpty (plainLine s)
     else if ty = str ''bullet-list''
       then orEmpty (itemLines (map (\<lambda>item. [8226, 32] @ item)) s)
     else if ty = str ''numbered-list'' then orEmpty (itemLines numbered s)
     else if ty = str ''quote''
       then orEmpty (Inr (JString (str ''  '' @ [34] @ tpl (content s) @ [34] @ str ''\<newline>'')))
     else dispatchMiss ty)"

definition generatePlainText :: "jsdate \<Rightarrow> contentDoc \<Rightarrow> options \<Rightarrow> js_error + jsstring" where
  "generatePlainText now c opts =
    (case mapJoin renderSectionAsPlainText (sections c) of
       Inl e \<Rightarrow> Inl e
     | Inr body \<Rightarrow>
         Inr (title c @ str ''\<newline>'' @ replicate (length (title c)) 61 @ str ''\<newline>\<newline>'' @
              str ''Source: '' @ url (metadata c) @ str ''\<newline>'' @
              str ''Generated: '' @ formatDate now @ str ''\<newline>\<newline>'' @
              body @
              (case footerGiven opts of
                 None \<Rightarrow> []
               | Some ft \<Rightarrow> str ''\<newline>'' @ replicate 50 9472 @ str ''\<newline>\<newline>'' @ ft @
                           str ''\<newline>'')))"

section \<open>Notions used to state the properties\<close>

text \<open>
  What one visit of the traversal does to an element, before deduplication: skipped
  elements and elements without a section give \<open>Inr None\<close>.
\<close>

definition classify :: "jsstring list \<times> node \<Rightarrow> js_error + sect option" where
  "classify p =
     (if insideListOrTable (fst p) then Inr None
      else extractSectionByType (snd p) (toLowerCase (tagName (snd p))))"

definition throws :: "(jsstring list \<times> node) list \<Rightarrow> bool" where
  "throws ps = list_ex (\<lambda>p. classify p = Inl TypeError) ps"

text \<open>The classified sections of the visited elements, in document order.\<close>

definition candidates :: "(jsstring list \<times> node) list \<Rightarrow> sect list" where
  "candidates ps =
     concat (map (\<lambda>p. case classify p of Inr (Some s) \<Rightarrow> [s] | _ \<Rightarrow> []) ps)"

text \<open>
  Keep-first semantics, said without a working set: a section stays, and every later
  section with its key goes.
\<close>

function firstOccurrences :: "sect list \<Rightarrow> sect list" where
  "firstOccurrences [] = []"
| "firstOccurrences (x # xs) =
     x # firstOccurrences (filter (\<lambda>y. sectionKey y \<noteq> sectionKey x) xs)"
  by pat_completeness auto
termination
  by (relation "measure length") (auto simp: less_Suc_eq_le)

text \<open>The invariant of the data model, on the section objects of the program.\<close>

definition headingOrQuote :: "jsstring \<Rightarrow> bool" where
  "headingOrQuote t \<longleftrightarrow>
     t = str ''h1'' \<or> t = str ''h2'' \<or> t = str ''h3'' \<or> t = str ''h4'' \<or> t = str ''h5'' \<or>
     t = str ''h6'' \<or> t = str ''quote''"

definition listType :: "jsstring \<Rightarrow> bool" where
  "listType t \<longleftrightarrow> t = str ''bullet-list'' \<or> t = str ''numbered-list''"

definition trimmedNonEmpty :: "jsstring \<Rightarrow> bool" where
  "trimmedNonEmpty x \<longleftrightarrow> x \<noteq> [] \<and> trim x = x"

definition sectionInvariant :: "nat \<Rightarrow> sect \<Rightarrow> bool" where
  "sectionInvariant minLength s =
    (case stype s of
       None \<Rightarrow> True
     | Some t \<Rightarrow>
         (if headingOrQuote t then (case content s of None \<Rightarrow> False | Some c \<Rightarrow> trim c \<noteq> [])
          else if t = str ''paragraph''
            then (case content s of None \<Rightarrow> False | Some c \<Rightarrow> minLength \<le> length c)
          else if listType t
            then (case items s of None \<Rightarrow> False
                  | Some xs \<Rightarrow> xs \<noteq> [] \<and> list_all trimmedNonEmpty xs)
          else True))"

text \<open>
  Standard unescaping, as far as the output of \<open>escapeHtml\<close> needs it: the five
  entities \<open>&amp;\<close>, \<open>&lt;\<close>, \<open>&gt;\<close>, \<open>&quot;\<close> and \<open>&#039;\<close> are decoded from left
  to right, everything else is kept.
\<close>

function unescapeHtml :: "jsstring \<Rightarrow> jsstring" where
  "unescapeHtml [] = []"
| "unescapeHtml (c # cs) =
    (if c = 38 \<and> prefix (str ''amp;'') cs then 38 # unescapeHtml (drop 4 cs)
     else if c = 38 \<and> prefix (str ''lt;'') cs then 60 # unescapeHtml (drop 3 cs)
     else if c = 38 \<and> prefix (str ''gt;'') cs then 62 # unescapeHtml (drop 3 cs)
     else if c = 38 \<and> prefix (str ''quot;'') cs then 34 # unescapeHtml (drop 5 cs)
     else if c = 38 \<and> prefix (str ''#039;'') cs then 39 # unescapeHtml (drop 5 cs)
     else c # unescapeHtml cs)"
  by pat_completeness auto
termination
  by (relation "measure length") auto

text \<open>
  \<open>clash pat cs\<close>: the string \<open>cs\<close> differs from \<open>pat\<close> at a position both have, so it
  is not a prefix of \<open>pat\<close> and \<open>pat\<close> is not a prefix of it, whatever is appended.
  \<open>guarded pat s\<close>: what follows each \<open><\<close> (code unit 60) in \<open>s\<close> clashes with \<open>pat\<close>;
  then \<open><\<close> followed by \<open>pat\<close> does not occur in \<open>s\<close>, nor in a concatenation of such
  strings.
\<close>

fun clash :: "jsstring \<Rightarrow> jsstring \<Rightarrow> bool" where
  "clash (p # ps) (c # cs) = (p \<noteq> c \<or> clash ps cs)"
| "clash ps cs = False"

fun guarded :: "jsstring \<Rightarrow> jsstring \<Rightarrow> bool" where
  "guarded pat [] = True"
| "guarded pat (c # cs) = ((if c = 60 then clash pat cs else True) \<and> guarded pat cs)"

text \<open>The shapes of the values the extractors return.\<close>

definition wellShaped :: "sect \<Rightarrow> bool" where
  "wellShaped s =
    (case (stype s, content s, items s) of
       (Some t, Some c, None) \<Rightarrow>
         (headingOrQuote t \<and> trimmedNonEmpty c) \<or>
         (t = str ''paragraph'' \<and> 3 \<le> length c \<and> trim c = c)
     | (Some t, None, Some xs) \<Rightarrow> listType t \<and> xs \<noteq> [] \<and> list_all trimmedNonEmpty xs
     | (None, None, None) \<Rightarrow> True
     | _ \<Rightarrow> False)"

definition notInside :: "jsstring list \<times> node \<Rightarrow> bool" where
  "notInside p = (\<not> insideListOrTable (fst p))"

text \<open>The type tags with an entry of their own in the tables of the three renderers.\<close>

definition htmlTypes :: "jsstring list" where
  "htmlTypes = [str ''h1'', str ''h2'', str ''h3'', str ''h4'', str ''paragraph'',
                str ''bullet-list'', str ''numbered-list'', str ''quote'']"

definition textTypes :: "jsstring list" where
  "textTypes = str ''h5'' # str ''h6'' # htmlTypes"

text \<open>The markup that \<open>renderSection\<close> adds around escaped text.\<close>

definition sectionMarkup :: "jsstring list" where
  "sectionMarkup =
     concat (map (\<lambda>t. [str ''<'' @ str t @ str ''>'', str ''</'' @ str t @ str ''>''])
       [''h1'', ''h2'', ''h3'', ''h4'', ''p'', ''ul'', ''ol'', ''blockquote'', ''li''])"

text \<open>
  The styled document before and after its footer, for the rendered sections \<open>body\<close>.
\<close>

definition htmlBeforeFooter :: "jsdate \<Rightarrow> contentDoc \<Rightarrow> jsstring \<Rightarrow> jsstring" where
  \<open>htmlBeforeFooter now c body =
     str ''\<newline>  <!DOCTYPE html>\<newline>  <html lang="de">\<newline>  <head>\<newline>'' @
     str ''    <meta charset="UTF-8">\<newline>    <title>'' @ escapeHtml (title c) @
     str ''</title>\<newline>    <style>'' @ getStyles @
     str ''</style>\<newline>  </head>\<newline>  <body>\<newline>    '' @
     renderHeader now c @ str ''\<newline>    '' @ body @ str ''\<newline>    ''\<close>

definition htmlAfterFooter :: jsstring where
  "htmlAfterFooter = str ''\<newline>  </body>\<newline>  </html>\<newline>''"

text \<open>What follows the \<open><\<close> of the footer element's opening tag.\<close>

definition footerTag :: jsstring where
  \<open>footerTag = str ''div class="footer">''\<close>

text \<open>The footer block of the Markdown and plain-text generators.\<close>

definition markdownFooter :: "jsstring option \<Rightarrow> jsstring" where
  "markdownFooter ft =
     (case ft of None \<Rightarrow> []
      | Some t \<Rightarrow> if t = [] then [] else str ''\<newline>---\<newline>\<newline>'' @ t @ str ''\<newline>'')"

definition plainFooter :: "jsstring option \<Rightarrow> jsstring" where
  "plainFooter ft =
     (case ft of None \<Rightarrow> []
      | Some t \<Rightarrow> if t = [] then []
          else str ''\<newline>'' @ replicate 50 9472 @ str ''\<newline>\<newline>'' @ t @ str ''\<newline>'')"

section \<open>Example inputs\<close>

definition el :: "string \<Rightarrow> node list \<Rightarrow> node" where
  "el t cs = Element (str t) [] cs"

definition tnode :: "string \<Rightarrow> node" where
  "tnode s = Text (str s)"

text \<open>\<open><main><h1>T</h1><h2>S</h2><h2>S</h2><p>Hi there</p></main>\<close>\<close>

definition docRepeated :: document where
  "docRepeated =
     [el ''main'' [el ''h1'' [tnode ''T''], el ''h2'' [tnode ''S''], el ''h2'' [tnode ''S''],
                   el ''p'' [tnode ''Hi there'']]]"

text \<open>\<open><main><ul><li>a,b</li></ul><ul><li>a</li><li>b</li></ul></main>\<close>\<close>

definition docCommaLists :: document where
  "docCommaLists =
     [el ''main'' [el ''ul'' [el ''li'' [tnode ''a,b'']],
                   el ''ul'' [el ''li'' [tnode ''a''], el ''li'' [tnode ''b'']]]]"

text \<open>\<open><main><p>ab</p><p>Long enough text</p></main>\<close>\<close>

definition docShort :: document where
  "docShort = [el ''main'' [el ''p'' [tnode ''ab''], el ''p'' [tnode ''Long enough text'']]]"

text \<open>
  \<open><main><table><tr><td><p>cell text</p></td></tr></table>
  <ul><li><p>inner</p></li></ul><p>outer</p></main>\<close>
\<close>

definition docNested :: document where
  "docNested =
     [el ''main''
        [el ''table'' [el ''tr'' [el ''td'' [el ''p'' [tnode ''cell text'']]]],
         el ''ul'' [el ''li'' [el ''p'' [tnode ''inner'']]],
         el ''p'' [tnode ''outer'']]]"

text \<open>
  \<open><main><h3> Title </h3><ol><li>one</li><li> </li><li>two</li></ol>
  <blockquote>Stay hungry</blockquote></main>\<close>
\<close>

definition docKinds :: document where
  "docKinds =
     [el ''main''
        [el ''h3'' [tnode '' Title ''],
         el ''ol'' [el ''li'' [tnode ''one''], el ''li'' [tnode '' ''], el ''li'' [tnode ''two'']],
         el ''blockquote'' [tnode ''Stay hungry'']]]"

definition date0 :: jsdate where
  "date0 = \<lparr>day = 15, month = January, year = 2025\<rparr>"

definition date1 :: jsdate where
  "date1 = \<lparr>day = 16, month = January, year = 2025\<rparr>"

definition docPlain :: contentDoc where
  "docPlain =
     \<lparr>title = str ''T'',
      metadata = \<lparr>description = [], url = str ''u'', scrapedAt = str ''2025-01-15T12:00:00.000Z''\<rparr>,
      sections = []\<rparr>"

text \<open>\<open><main><h5>Deep</h5></main>\<close>\<close>

definition docDeep :: document where
  "docDeep = [el ''main'' [el ''h5'' [tnode ''Deep'']]]"

lemmas extract_defs =
  extractSections_def scope_def mainContent_def allElements_def findAll_def matchesMain_def
  hasClass_def visit_def insideListOrTable_def toLowerCase_def extractSectionByType_def
  extractHeading_def extractParagraph_def extractList_def extractQuote_def isLi_def
  isValidText_def trim_def isWhiteSpace_def inheritedCall_def truthy_def
  contentSection_def itemsSection_def bareSection_def sectionKey_def tpl_def js_or_def
  classify_def throws_def candidates_def str_def el_def tnode_def

section \<open>Properties of the traversal\<close>

subsection \<open>Keep-first\<close>

lemma firstOccurrences_subset: "set (firstOccurrences xs) \<subseteq> set xs"
  by (induction xs rule: firstOccurrences.induct) auto

lemma firstOccurrences_keys:
  "sectionKey ` set (firstOccurrences xs) = sectionKey ` set xs"
  by (induction xs rule: firstOccurrences.induct) auto

lemma firstOccurrences_distinct: "distinct (map sectionKey (firstOccurrences xs))"
proof (induction xs rule: firstOccurrences.induct)
  case 1
  show ?case by simp
next
  case (2 x xs)
  have "sectionKey x \<notin> sectionKey ` set (firstOccurrences (filter (\<lambda>y. sectionKey y \<noteq> sectionKey x) xs))"
    using firstOccurrences_subset [of "filter (\<lambda>y. sectionKey y \<noteq> sectionKey x) xs"] by auto
  with 2 show ?case by simp
qed

lemma firstOccurrences_subseq: "subseq (firstOccurrences xs) xs"
proof (induction xs rule: firstOccurrences.induct)
  case 1
  show ?case by simp
next
  case (2 x xs)
  have "subseq (filter (\<lambda>y. sectionKey y \<noteq> sectionKey x) xs) xs" by simp
  with 2 have "subseq (firstOccurrences (filter (\<lambda>y. sectionKey y \<noteq> sectionKey x) xs)) xs"
    using subseq_order.trans by blast
  then show ?case by simp
qed

subsection \<open>The traversal\<close>

lemma visit_classify:
  "visit st p =
    (case classify p of
       Inl e \<Rightarrow> Inl e
     | Inr None \<Rightarrow> Inr st
     | Inr (Some s) \<Rightarrow>
         (if sectionKey s \<in> seen st then Inr st
          else Inr \<lparr>pushed = pushed st @ [s], seen = insert (sectionKey s) (seen st)\<rparr>))"
  by (simp add: visit_def classify_def Let_def split: sum.splits option.splits)

lemma each_throws: "throws ps \<Longrightarrow> each st ps = Inl TypeError"
proof (induction ps arbitrary: st)
  case Nil
  then show ?case by (simp add: throws_def)
next
  case (Cons p ps)
  show ?case
  proof (cases "classify p")
    case (Inl e)
    then show ?thesis by (cases e) (simp add: visit_classify)
  next
    case (Inr r)
    with Cons.prems have "throws ps" by (simp add: throws_def)
    then have "\<And>st'. each st' ps = Inl TypeError" by (rule Cons.IH)
    with Inr show ?thesis by (simp add: visit_classify split: option.splits)
  qed
qed

lemma each_keep:
  "\<not> throws ps \<Longrightarrow>
   each st ps = Inr \<lparr>pushed = pushed st @ firstOccurrences (filter (\<lambda>s. sectionKey s \<notin> seen st) (candidates ps)),
                     seen = seen st \<union> sectionKey ` set (candidates ps)\<rparr>"
proof (induction ps arbitrary: st)
  case Nil
  then show ?case by (simp add: candidates_def)
next
  case (Cons p ps)
  from Cons.prems have nt: "\<not> throws ps" and np: "classify p \<noteq> Inl TypeError"
    by (simp_all add: throws_def)
  from np obtain r where r: "classify p = Inr r"
    by (cases "classify p") (auto intro: js_error.exhaust)
  show ?case
  proof (cases r)
    case None
    with r have "candidates (p # ps) = candidates ps" by (simp add: candidates_def)
    with None r Cons.IH [OF nt] show ?thesis by (simp add: visit_classify)
  next
    case (Some s)
    with r have c: "candidates (p # ps) = s # candidates ps" by (simp add: candidates_def)
    show ?thesis
    proof (cases "sectionKey s \<in> seen st")
      case True
      then have "insert (sectionKey s) (seen st) = seen st" by auto
      with True Some r c Cons.IH [OF nt, of st] show ?thesis
        by (auto simp add: visit_classify)
    next
      case False
      have f: "filter (\<lambda>y. sectionKey y \<noteq> sectionKey s) (filter (\<lambda>s. sectionKey s \<notin> seen st) (candidates ps))
         = filter (\<lambda>y. sectionKey y \<notin> insert (sectionKey s) (seen st)) (candidates ps)"
        by (simp add: conj_commute)
      from False Some r c f
        Cons.IH [OF nt, of "\<lparr>pushed = pushed st @ [s], seen = insert (sectionKey s) (seen st)\<rparr>"]
      show ?thesis by (simp add: visit_classify)
    qed
  qed
qed

lemma extractSections_eq:
  "extractSections doc =
     (if throws (scope doc) then Inl TypeError
      else Inr (firstOccurrences (candidates (scope doc))))"
  by (simp add: extractSections_def each_throws each_keep)

lemma find_filter_implied:
  "(\<And>y. P y \<Longrightarrow> Q y) \<Longrightarrow> find P (filter Q xs) = find P xs"
  by (induction xs) auto

lemma firstOccurrences_find:
  "find (\<lambda>s. sectionKey s = k) (firstOccurrences xs) = find (\<lambda>s. sectionKey s = k) xs"
proof (induction xs rule: firstOccurrences.induct)
  case 1
  show ?case by simp
next
  case (2 x xs)
  show ?case
  proof (cases "sectionKey x = k")
    case True
    then show ?thesis by simp
  next
    case False
    then have "find (\<lambda>s. sectionKey s = k) (filter (\<lambda>y. sectionKey y \<noteq> sectionKey x) xs)
        = find (\<lambda>s. sectionKey s = k) xs"
      by (intro find_filter_implied) auto
    with False 2 show ?thesis by simp
  qed
qed

lemma scope_docRepeated:
  "scope docRepeated =
    [([str ''main''], el ''h1'' [tnode ''T'']), ([str ''main''], el ''h2'' [tnode ''S'']),
     ([str ''main''], el ''h2'' [tnode ''S'']), ([str ''main''], el ''p'' [tnode ''Hi there''])]"
  by (simp add: docRepeated_def scope_def mainContent_def allElements_def findAll_def
      matchesMain_def el_def tnode_def str_def)

lemma candidates_docRepeated:
  "candidates (scope docRepeated) =
     [contentSection (str ''h1'') (str ''T''), contentSection (str ''h2'') (str ''S''),
      contentSection (str ''h2'') (str ''S''), contentSection (str ''paragraph'') (str ''Hi there'')]"
  unfolding scope_docRepeated by (simp add: extract_defs)

section \<open>Deduplication\<close>

text \<open>
  Claim C1. Whenever two classified sections of one traversal have the same identity
  key, \<open>extractSections\<close> keeps the first and does not append the second. With the
  classified sections of the visited elements in document order (\<open>candidates\<close>), the
  result is their keep-first selection: its keys are pairwise distinct, every key of a
  candidate occurs in it, it is a subsequence of the candidates (document order), and
  for every key the section kept is the first candidate with that key. The traversal
  throws only where a dispatch-table lookup throws.
\<close>

theorem extractSections_keeps_first_occurrence:
  "extractSections doc =
     (if throws (scope doc) then Inl TypeError
      else Inr (firstOccurrences (candidates (scope doc))))
   \<and> distinct (map sectionKey (firstOccurrences (candidates (scope doc))))
   \<and> sectionKey ` set (firstOccurrences (candidates (scope doc)))
       = sectionKey ` set (candidates (scope doc))
   \<and> subseq (firstOccurrences (candidates (scope doc))) (candidates (scope doc))
   \<and> find (\<lambda>s. sectionKey s = k) (firstOccurrences (candidates (scope doc)))
       = find (\<lambda>s. sectionKey s = k) (candidates (scope doc))"
  using extractSections_eq firstOccurrences_distinct firstOccurrences_keys firstOccurrences_subseq
    firstOccurrences_find by blast

theorem extractSections_keeps_first_occurrence_witness:
  "candidates (scope docRepeated) =
     [contentSection (str ''h1'') (str ''T''), contentSection (str ''h2'') (str ''S''),
      contentSection (str ''h2'') (str ''S''), contentSection (str ''paragraph'') (str ''Hi there'')]
   \<and> extractSections docRepeated =
     Inr [contentSection (str ''h1'') (str ''T''), contentSection (str ''h2'') (str ''S''),
          contentSection (str ''paragraph'') (str ''Hi there'')]"
  using extractSections_keeps_first_occurrence [of docRepeated]
  by (simp add: candidates_docRepeated) (simp add: docRepeated_def extract_defs)

text \<open>
  Claim C10. The key of a list section is its type, a colon and the items joined by a
  comma. The item sequences \<open>["a,b"]\<close> and \<open>["a", "b"]\<close> differ and have the same
  key; in a document with both lists, both are classified and only the first is
  returned.
\<close>

theorem list_key_collision:
  "sectionKey (itemsSection t xs) = t @ str '':'' @ join (str '','') xs
   \<and> [str ''a,b''] \<noteq> [str ''a'', str ''b'']
   \<and> sectionKey (itemsSection (str ''bullet-list'') [str ''a,b''])
       = sectionKey (itemsSection (str ''bullet-list'') [str ''a'', str ''b''])
   \<and> candidates (scope docCommaLists) =
       [itemsSection (str ''bullet-list'') [str ''a,b''],
        itemsSection (str ''bullet-list'') [str ''a'', str ''b'']]
   \<and> extractSections docCommaLists = Inr [itemsSection (str ''bullet-list'') [str ''a,b'']]"
proof -
  have "sectionKey (itemsSection t xs) = t @ str '':'' @ join (str '','') xs"
    by (simp add: sectionKey_def itemsSection_def tpl_def js_or_def)
  moreover have "candidates (scope docCommaLists) =
       [itemsSection (str ''bullet-list'') [str ''a,b''],
        itemsSection (str ''bullet-list'') [str ''a'', str ''b'']]"
    by (simp add: docCommaLists_def extract_defs)
  moreover have "extractSections docCommaLists = Inr [itemsSection (str ''bullet-list'') [str ''a,b'']]"
    by (simp add: docCommaLists_def extract_defs)
  moreover have "sectionKey (itemsSection (str ''bullet-list'') [str ''a,b''])
       = sectionKey (itemsSection (str ''bullet-list'') [str ''a'', str ''b''])"
    by (simp add: sectionKey_def itemsSection_def tpl_def js_or_def str_def)
  ultimately show ?thesis by (simp add: str_def)
qed

section \<open>Properties of the extractors\<close>

subsection \<open>Trimming\<close>

lemma dropWhile_fix: "xs = [] \<or> \<not> P (hd xs) \<Longrightarrow> dropWhile P xs = xs"
  by (cases xs) auto

lemma dropEnd_prefix: "\<exists>zs. xs = rev (dropWhile P (rev xs)) @ zs"
proof -
  have "rev xs = takeWhile P (rev xs) @ dropWhile P (rev xs)" by simp
  then have "rev (rev xs) = rev (takeWhile P (rev xs) @ dropWhile P (rev xs))" by simp
  then have "xs = rev (dropWhile P (rev xs)) @ rev (takeWhile P (rev xs))"
    by (simp only: rev_rev_ident rev_append)
  then show ?thesis ..
qed

lemma trim_hd: "trim s \<noteq> [] \<Longrightarrow> \<not> isWhiteSpace (hd (trim s))"
proof -
  assume ne: "trim s \<noteq> []"
  let ?a = "dropWhile isWhiteSpace s"
  obtain zs where a: "?a = trim s @ zs"
    using dropEnd_prefix [of ?a isWhiteSpace] by (auto simp: trim_def)
  with ne have "hd (trim s) = hd ?a" by (metis hd_append2)
  moreover from a ne have "?a \<noteq> []" by auto
  ultimately show ?thesis using hd_dropWhile [of isWhiteSpace s] by simp
qed

lemma trim_idem: "trim (trim s) = trim s"
proof -
  have "dropWhile isWhiteSpace (trim s) = trim s"
    using trim_hd [of s] by (intro dropWhile_fix) auto
  then show ?thesis
    by (simp add: trim_def [of "trim s"]) (simp add: trim_def)
qed

lemma trimmedNonEmpty_trim: "trim s \<noteq> [] \<Longrightarrow> trimmedNonEmpty (trim s)"
  by (simp add: trimmedNonEmpty_def trim_idem)

lemma isValidText_trim: "isValidText (trim t) m \<longleftrightarrow> trim t \<noteq> [] \<and> m \<le> length (trim t)"
  by (simp add: isValidText_def trim_idem)

subsection \<open>The extractors\<close>

lemma extractParagraph_eq:
  "extractParagraph e =
     (if 3 \<le> length (trim (text_of e))
      then Some (contentSection (str ''paragraph'') (trim (text_of e))) else None)"
  by (auto simp: extractParagraph_def isValidText_trim Let_def)

lemma wellShaped_cases:
  "wellShaped s \<longleftrightarrow>
     (\<exists>t c. s = contentSection t c \<and> headingOrQuote t \<and> trimmedNonEmpty c) \<or>
     (\<exists>c. s = contentSection (str ''paragraph'') c \<and> 3 \<le> length c \<and> trim c = c) \<or>
     (\<exists>t xs. s = itemsSection t xs \<and> listType t \<and> xs \<noteq> [] \<and> list_all trimmedNonEmpty xs) \<or>
     s = bareSection"
  by (cases s)
    (auto simp: wellShaped_def contentSection_def itemsSection_def bareSection_def
      split: option.splits)

lemma wellShaped_content:
  "headingOrQuote t \<Longrightarrow> trimmedNonEmpty c \<Longrightarrow> wellShaped (contentSection t c)"
  unfolding wellShaped_cases by blast

lemma wellShaped_paragraph:
  "3 \<le> length c \<Longrightarrow> trim c = c \<Longrightarrow> wellShaped (contentSection (str ''paragraph'') c)"
  unfolding wellShaped_cases by blast

lemma wellShaped_items:
  "listType t \<Longrightarrow> xs \<noteq> [] \<Longrightarrow> list_all trimmedNonEmpty xs \<Longrightarrow> wellShaped (itemsSection t xs)"
  unfolding wellShaped_cases by blast

lemma wellShaped_bare: "wellShaped bareSection"
  unfolding wellShaped_cases by blast

lemma extractHeading_shape:
  "extractHeading e t = Some s \<Longrightarrow> headingOrQuote t \<Longrightarrow> wellShaped s"
  by (auto simp: extractHeading_def Let_def trimmedNonEmpty_trim split: if_splits
      intro: wellShaped_content)

lemma extractQuote_shape: "extractQuote e = Some s \<Longrightarrow> wellShaped s"
  by (auto simp: extractQuote_def Let_def trimmedNonEmpty_trim headingOrQuote_def
      split: if_splits intro!: wellShaped_content)

lemma extractParagraph_shape: "extractParagraph e = Some s \<Longrightarrow> wellShaped s"
  by (auto simp: extractParagraph_eq trim_idem split: if_splits intro: wellShaped_paragraph)

lemma extractList_shape: "extractList e t = Some s \<Longrightarrow> listType t \<Longrightarrow> wellShaped s"
proof -
  assume a: "extractList e t = Some s" and t: "listType t"
  let ?xs = "filter (\<lambda>s. s \<noteq> []) (map (\<lambda>li. trim (text_of li)) (filter isLi (children e)))"
  from a have s: "s = itemsSection t ?xs" and ne: "?xs \<noteq> []"
    by (auto simp: extractList_def Let_def split: if_splits)
  have "list_all trimmedNonEmpty ?xs"
    by (auto simp: list_all_iff trimmedNonEmpty_def trim_idem)
  with s ne t show ?thesis by (simp add: wellShaped_items)
qed

lemma extractSectionByType_shape:
  "extractSectionByType e tag = Inr (Some s) \<Longrightarrow> wellShaped s"
  unfolding extractSectionByType_def
  by (auto split: if_splits option.splits sum.splits
      intro: extractHeading_shape extractQuote_shape extractParagraph_shape extractList_shape
        wellShaped_bare
      simp: headingOrQuote_def listType_def)

lemma candidates_mem:
  "s \<in> set (candidates ps) \<longleftrightarrow> (\<exists>p\<in>set ps. classify p = Inr (Some s))"
  by (induction ps) (auto simp: candidates_def split: sum.splits option.splits)

lemma candidates_wellShaped: "s \<in> set (candidates ps) \<Longrightarrow> wellShaped s"
  by (auto simp: candidates_mem classify_def split: if_splits dest: extractSectionByType_shape)

lemma sectionKey_content: "sectionKey (contentSection t c) = t @ str '':'' @ c"
  by (simp add: sectionKey_def contentSection_def tpl_def js_or_def)

lemma sectionKey_items: "sectionKey (itemsSection t xs) = t @ str '':'' @ join (str '','') xs"
  by (simp add: sectionKey_def itemsSection_def tpl_def js_or_def)

lemma sectionKey_bare: "sectionKey bareSection = str ''undefined:''"
  by (simp add: sectionKey_def bareSection_def tpl_def js_or_def str_def)

lemma paragraph_key_content:
  assumes "headingOrQuote t" and "t @ str '':'' @ c' = str ''paragraph'' @ str '':'' @ c"
  shows False
  using assms by (auto simp: headingOrQuote_def str_def)

lemma paragraph_key_items:
  assumes "listType t" and "t @ str '':'' @ c' = str ''paragraph'' @ str '':'' @ c"
  shows False
  using assms by (auto simp: listType_def str_def)

lemma paragraph_key_inj:
  assumes "wellShaped s"
    and "sectionKey s = sectionKey (contentSection (str ''paragraph'') c)"
  shows "s = contentSection (str ''paragraph'') c"
proof -
  from assms(1) consider
      (hq) t c' where "s = contentSection t c'" "headingOrQuote t"
    | (par) c' where "s = contentSection (str ''paragraph'') c'"
    | (lst) t xs where "s = itemsSection t xs" "listType t"
    | (bare) "s = bareSection"
    unfolding wellShaped_cases by blast
  then show ?thesis
  proof cases
    case hq
    with assms(2) show ?thesis
      using paragraph_key_content [of t c' c] by (simp add: sectionKey_content)
  next
    case par
    with assms(2) show ?thesis by (simp add: sectionKey_content)
  next
    case lst
    with assms(2) show ?thesis
      using paragraph_key_items [of t "join (str '','') xs" c]
      by (simp add: sectionKey_content sectionKey_items)
  next
    case bare
    with assms(2) show ?thesis by (simp add: sectionKey_content sectionKey_bare str_def)
  qed
qed

lemma extractHeading_stype: "extractHeading e t = Some s \<Longrightarrow> stype s = Some t"
  by (auto simp: extractHeading_def Let_def contentSection_def split: if_splits)

lemma extractQuote_stype: "extractQuote e = Some s \<Longrightarrow> stype s = Some (str ''quote'')"
  by (auto simp: extractQuote_def Let_def contentSection_def split: if_splits)

lemma extractList_stype: "extractList e t = Some s \<Longrightarrow> stype s = Some t"
  by (auto simp: extractList_def Let_def itemsSection_def split: if_splits)

lemma extractSectionByType_p: "extractSectionByType e (str ''p'') = Inr (extractParagraph e)"
  by (simp add: extractSectionByType_def str_def)

lemma extractSectionByType_table: "extractSectionByType e (str ''table'') = Inr None"
  by (simp add: extractSectionByType_def inheritedCall_def str_def)

lemma paragraph_only_from_p:
  assumes "extractSectionByType e tag = Inr (Some s)" and "stype s = Some (str ''paragraph'')"
  shows "tag = str ''p''"
proof (rule ccontr)
  assume np: "tag \<noteq> str ''p''"
  have lit: "str ''paragraph'' \<noteq> str ''h1''" "str ''paragraph'' \<noteq> str ''h2''"
    "str ''paragraph'' \<noteq> str ''h3''" "str ''paragraph'' \<noteq> str ''h4''"
    "str ''paragraph'' \<noteq> str ''h5''" "str ''paragraph'' \<noteq> str ''h6''"
    "str ''paragraph'' \<noteq> str ''quote''" "str ''paragraph'' \<noteq> str ''bullet-list''"
    "str ''paragraph'' \<noteq> str ''numbered-list''"
    by (simp_all add: str_def)
  from assms np lit show False
    unfolding extractSectionByType_def
    by (auto split: if_splits option.splits sum.splits
        dest!: extractHeading_stype extractQuote_stype extractList_stype
        simp: bareSection_def)
qed

lemma extractSectionByType_paragraph:
  "extractSectionByType e tag = Inr (Some (contentSection (str ''paragraph'') c)) \<longleftrightarrow>
     tag = str ''p'' \<and> trim (text_of e) = c \<and> 3 \<le> length c"
proof
  assume a: "extractSectionByType e tag = Inr (Some (contentSection (str ''paragraph'') c))"
  then have t: "tag = str ''p''"
    by (rule paragraph_only_from_p) (simp add: contentSection_def)
  with a have "extractParagraph e = Some (contentSection (str ''paragraph'') c)"
    by (simp add: extractSectionByType_p)
  with t show "tag = str ''p'' \<and> trim (text_of e) = c \<and> 3 \<le> length c"
    by (auto simp: extractParagraph_eq contentSection_def split: if_splits)
next
  assume "tag = str ''p'' \<and> trim (text_of e) = c \<and> 3 \<le> length c"
  then show "extractSectionByType e tag = Inr (Some (contentSection (str ''paragraph'') c))"
    by (auto simp: extractSectionByType_p extractParagraph_eq)
qed

text \<open>
  The traversal throws only for an element named \<open>__proto__\<close>, a name no HTML parser
  gives an element (tag names start with a letter).
\<close>

lemma toLowerCase_no_upper: "c \<in> set (toLowerCase s) \<Longrightarrow> \<not> (65 \<le> c \<and> c \<le> 90)"
  by (auto simp: toLowerCase_def)

lemma extractSectionByType_throws:
  "extractSectionByType e tag = Inl TypeError \<longleftrightarrow>
     tag = str ''__proto__'' \<or> tag = str ''__defineGetter__'' \<or> tag = str ''__defineSetter__''"
  by (simp add: extractSectionByType_def inheritedCall_def str_def)

lemma throws_iff:
  "throws ps \<longleftrightarrow>
     (\<exists>p\<in>set ps. notInside p \<and> toLowerCase (tagName (snd p)) = str ''__proto__'')"
proof -
  have "toLowerCase s \<noteq> str ''__defineGetter__''" "toLowerCase s \<noteq> str ''__defineSetter__''" for s
    using toLowerCase_no_upper [of 71 s] toLowerCase_no_upper [of 83 s]
    by (auto simp: str_def)
  then show ?thesis
    by (auto simp: throws_def list_ex_iff classify_def notInside_def extractSectionByType_throws)
qed

section \<open>Filtering and the section invariant\<close>

lemma wellShaped_invariant: "wellShaped s \<Longrightarrow> sectionInvariant 3 s"
proof -
  assume "wellShaped s"
  then consider
      (hq) t c where "s = contentSection t c" "headingOrQuote t" "trimmedNonEmpty c"
    | (par) c where "s = contentSection (str ''paragraph'') c" "3 \<le> length c"
    | (lst) t xs where "s = itemsSection t xs" "listType t" "xs \<noteq> []" "list_all trimmedNonEmpty xs"
    | (bare) "s = bareSection"
    unfolding wellShaped_cases by blast
  then show ?thesis
  proof cases
    case hq
    then show ?thesis
      by (simp add: sectionInvariant_def contentSection_def trimmedNonEmpty_def)
  next
    case par
    have "\<not> headingOrQuote (str ''paragraph'')" by (simp add: headingOrQuote_def str_def)
    with par show ?thesis by (simp add: sectionInvariant_def contentSection_def)
  next
    case lst
    from lst(2) have "\<not> headingOrQuote t" "t \<noteq> str ''paragraph''"
      by (auto simp: listType_def headingOrQuote_def str_def)
    with lst show ?thesis by (simp add: sectionInvariant_def itemsSection_def)
  next
    case bare
    then show ?thesis by (simp add: sectionInvariant_def bareSection_def)
  qed
qed

lemma visit_inside: "insideListOrTable anc \<Longrightarrow> visit st (anc, e) = Inr st"
  by (simp add: visit_def)

lemma each_filter_notInside: "each st ps = each st (filter notInside ps)"
proof (induction ps arbitrary: st)
  case Nil
  show ?case by simp
next
  case (Cons p ps)
  show ?case
  proof (cases "notInside p")
    case True
    with Cons show ?thesis by (simp split: sum.splits)
  next
    case False
    then have "visit st p = Inr st" by (simp add: notInside_def visit_def)
    with False Cons show ?thesis by simp
  qed
qed

lemma extracted_origin:
  assumes "extractSections doc = Inr out" and "s \<in> set out"
  shows "\<exists>p\<in>set (scope doc). notInside p \<and>
           extractSectionByType (snd p) (toLowerCase (tagName (snd p))) = Inr (Some s)"
proof -
  from assms(1) have "out = firstOccurrences (candidates (scope doc))"
    by (simp add: extractSections_eq split: if_splits)
  with assms(2) have "s \<in> set (candidates (scope doc))"
    using firstOccurrences_subset by blast
  then show ?thesis
    by (auto simp: candidates_mem classify_def notInside_def split: if_splits)
qed

lemma extracted_mem_paragraph:
  assumes "extractSections doc = Inr out"
    and "p \<in> set (scope doc)" and "notInside p"
    and "extractSectionByType (snd p) (toLowerCase (tagName (snd p))) = Inr (Some s)"
    and "s = contentSection (str ''paragraph'') c"
  shows "s \<in> set out"
proof -
  let ?cs = "candidates (scope doc)"
  from assms(1) have out: "out = firstOccurrences ?cs"
    by (simp add: extractSections_eq split: if_splits)
  from assms(2-4) have "s \<in> set ?cs"
    by (auto simp: candidates_mem classify_def notInside_def)
  then have "sectionKey s \<in> sectionKey ` set (firstOccurrences ?cs)"
    by (simp add: firstOccurrences_keys)
  then obtain s' where s': "s' \<in> set (firstOccurrences ?cs)" "sectionKey s' = sectionKey s"
    by auto
  then have "wellShaped s'"
    using firstOccurrences_subset candidates_wellShaped by blast
  with s' assms(5) have "s' = s" by (simp add: paragraph_key_inj)
  with s' out show ?thesis by simp
qed

text \<open>
  Claim C5. A \<open>p\<close> element yields a paragraph section exactly when its trimmed text
  has at least 3 code units, the default minimum of \<open>isValidText\<close> (which
  \<open>extractParagraph\<close> never overrides). For a traversal that returns, a paragraph
  with text \<open>c\<close> is among the returned sections if and only if \<open>c\<close> has length at
  least 3 and is the trimmed text of a visited \<open>p\<close> element with no \<open>ul\<close>, \<open>ol\<close> or
  \<open>table\<close> ancestor. Deduplication never removes it: a dropped duplicate equals the
  section that stays.
\<close>

theorem paragraph_minimum_length:
  assumes "extractSections doc = Inr out"
  shows "extractParagraph e =
           (if 3 \<le> length (trim (text_of e))
            then Some (contentSection (str ''paragraph'') (trim (text_of e))) else None)
    \<and> (isValidText (trim t) m \<longleftrightarrow> trim t \<noteq> [] \<and> m \<le> length (trim t))
    \<and> (contentSection (str ''paragraph'') c \<in> set out \<longleftrightarrow>
         3 \<le> length c \<and>
         (\<exists>p\<in>set (scope doc). notInside p \<and> toLowerCase (tagName (snd p)) = str ''p'' \<and>
            trim (text_of (snd p)) = c))"
proof -
  have "contentSection (str ''paragraph'') c \<in> set out \<longleftrightarrow>
         3 \<le> length c \<and>
         (\<exists>p\<in>set (scope doc). notInside p \<and> toLowerCase (tagName (snd p)) = str ''p'' \<and>
            trim (text_of (snd p)) = c)" (is "?L \<longleftrightarrow> ?R")
  proof
    assume ?L
    with assms obtain p where "p \<in> set (scope doc)" "notInside p"
      "extractSectionByType (snd p) (toLowerCase (tagName (snd p)))
         = Inr (Some (contentSection (str ''paragraph'') c))"
      using extracted_origin by blast
    then show ?R by (auto simp: extractSectionByType_paragraph)
  next
    assume ?R
    then obtain p where p: "p \<in> set (scope doc)" "notInside p"
      "toLowerCase (tagName (snd p)) = str ''p''" "trim (text_of (snd p)) = c" "3 \<le> length c"
      by blast
    then have "extractSectionByType (snd p) (toLowerCase (tagName (snd p)))
         = Inr (Some (contentSection (str ''paragraph'') c))"
      by (simp add: extractSectionByType_paragraph)
    with assms p show ?L by (blast intro: extracted_mem_paragraph)
  qed
  then show ?thesis by (simp add: extractParagraph_eq isValidText_trim)
qed

lemma extractSections_docShort:
  "extractSections docShort = Inr [contentSection (str ''paragraph'') (str ''Long enough text'')]"
  by (simp add: docShort_def extract_defs)

theorem paragraph_minimum_length_witness:
  "extractSections docShort = Inr [contentSection (str ''paragraph'') (str ''Long enough text'')]
   \<and> (\<exists>p\<in>set (scope docShort). notInside p \<and> toLowerCase (tagName (snd p)) = str ''p'' \<and>
         trim (text_of (snd p)) = str ''Long enough text'')
   \<and> contentSection (str ''paragraph'') (str ''ab'')
       \<notin> set [contentSection (str ''paragraph'') (str ''Long enough text'')]"
  using paragraph_minimum_length [OF extractSections_docShort, of _ _ _ "str ''Long enough text''"]
    paragraph_minimum_length [OF extractSections_docShort, of _ _ _ "str ''ab''"]
  by (simp add: extractSections_docShort) (simp add: str_def)

text \<open>
  Claim C7. The visit of an element with a \<open>ul\<close>, \<open>ol\<close> or \<open>table\<close> ancestor leaves
  the traversal state as it is, so the traversal gives what it gives on the elements
  without such an ancestor alone. A \<open>table\<close> element itself has no extractor. Hence
  every returned section is the section of a visited element that is neither inside a
  list or table nor a table: nothing inside a table becomes a section of its own.
\<close>

theorem nested_elements_skipped:
  "(insideListOrTable anc \<longrightarrow> visit st (anc, e) = Inr st)
   \<and> each st ps = each st (filter notInside ps)
   \<and> extractSectionByType e (str ''table'') = Inr None
   \<and> (extractSections doc = Inr out \<longrightarrow> s \<in> set out \<longrightarrow>
        (\<exists>p\<in>set (scope doc). notInside p \<and> toLowerCase (tagName (snd p)) \<noteq> str ''table'' \<and>
           extractSectionByType (snd p) (toLowerCase (tagName (snd p))) = Inr (Some s)))"
proof -
  have "extractSections doc = Inr out \<longrightarrow> s \<in> set out \<longrightarrow>
        (\<exists>p\<in>set (scope doc). notInside p \<and> toLowerCase (tagName (snd p)) \<noteq> str ''table'' \<and>
           extractSectionByType (snd p) (toLowerCase (tagName (snd p))) = Inr (Some s))"
  proof (intro impI)
    assume "extractSections doc = Inr out" "s \<in> set out"
    then obtain p where p: "p \<in> set (scope doc)" "notInside p"
      "extractSectionByType (snd p) (toLowerCase (tagName (snd p))) = Inr (Some s)"
      using extracted_origin by blast
    then have "toLowerCase (tagName (snd p)) \<noteq> str ''table''"
      using extractSectionByType_table [of "snd p"] by auto
    with p show "\<exists>p\<in>set (scope doc). notInside p \<and> toLowerCase (tagName (snd p)) \<noteq> str ''table'' \<and>
           extractSectionByType (snd p) (toLowerCase (tagName (snd p))) = Inr (Some s)"
      by blast
  qed
  then show ?thesis
    using visit_inside each_filter_notInside extractSectionByType_table by blast
qed

lemma extractSections_docNested:
  "extractSections docNested =
     Inr [itemsSection (str ''bullet-list'') [str ''inner''],
          contentSection (str ''paragraph'') (str ''outer'')]"
  by (simp add: docNested_def extract_defs)

theorem nested_elements_skipped_witness:
  "insideListOrTable [str ''td'', str ''tr'', str ''table'', str ''main'']
   \<and> visit \<lparr>pushed = [], seen = {}\<rparr>
        ([str ''td'', str ''tr'', str ''table'', str ''main''], el ''p'' [tnode ''cell text''])
       = Inr \<lparr>pushed = [], seen = {}\<rparr>
   \<and> extractSections docNested =
       Inr [itemsSection (str ''bullet-list'') [str ''inner''],
            contentSection (str ''paragraph'') (str ''outer'')]
   \<and> (\<exists>p\<in>set (scope docNested). notInside p \<and> toLowerCase (tagName (snd p)) \<noteq> str ''table'' \<and>
         extractSectionByType (snd p) (toLowerCase (tagName (snd p)))
           = Inr (Some (contentSection (str ''paragraph'') (str ''outer''))))"
proof -
  have i: "insideListOrTable [str ''td'', str ''tr'', str ''table'', str ''main'']"
    by (simp add: insideListOrTable_def)
  from nested_elements_skipped
    [of "[str ''td'', str ''tr'', str ''table'', str ''main'']" "\<lparr>pushed = [], seen = {}\<rparr>"
      "el ''p'' [tnode ''cell text'']" _ docNested
      "[itemsSection (str ''bullet-list'') [str ''inner''],
        contentSection (str ''paragraph'') (str ''outer'')]"
      "contentSection (str ''paragraph'') (str ''outer'')"]
  show ?thesis using i by (simp add: extractSections_docNested)
qed

text \<open>
  Claim C8. Every section that extraction returns satisfies the invariant of the data
  model: the text of a heading or quote is non-empty after trimming, the items of a list
  are a non-empty sequence of non-empty trimmed strings, and the text of a paragraph has
  at least 3 code units. \<open>wellShaped\<close> lists the shapes that occur; its last one is the
  object without properties that an element named like a callable property of
  \<open>Object.prototype\<close> (\<open>constructor\<close>) yields, which has no variant tag.
\<close>

theorem extracted_sections_satisfy_invariant:
  assumes "extractSections doc = Inr out" and "s \<in> set out"
  shows "sectionInvariant 3 s \<and> wellShaped s"
proof -
  from extracted_origin [OF assms] obtain p where
    "extractSectionByType (snd p) (toLowerCase (tagName (snd p))) = Inr (Some s)"
    by auto
  then have "wellShaped s" by (rule extractSectionByType_shape)
  then show ?thesis by (simp add: wellShaped_invariant)
qed

lemma extractSections_docKinds:
  "extractSections docKinds =
     Inr [contentSection (str ''h3'') (str ''Title''),
          itemsSection (str ''numbered-list'') [str ''one'', str ''two''],
          contentSection (str ''quote'') (str ''Stay hungry'')]"
  by (simp add: docKinds_def extract_defs)

theorem extracted_sections_satisfy_invariant_witness:
  "extractSections docKinds =
     Inr [contentSection (str ''h3'') (str ''Title''),
          itemsSection (str ''numbered-list'') [str ''one'', str ''two''],
          contentSection (str ''quote'') (str ''Stay hungry'')]
   \<and> sectionInvariant 3 (itemsSection (str ''numbered-list'') [str ''one'', str ''two''])
   \<and> wellShaped (itemsSection (str ''numbered-list'') [str ''one'', str ''two''])"
  using extracted_sections_satisfy_invariant [OF extractSections_docKinds,
      of "itemsSection (str ''numbered-list'') [str ''one'', str ''two'']"]
  by (simp add: extractSections_docKinds)

section \<open>Escaping and markup\<close>

subsection \<open>Strings without an opening tag\<close>

lemma clash_append: "clash pat cs \<Longrightarrow> clash pat (cs @ zs)"
  by (induction pat cs rule: clash.induct) auto

lemma clash_self: "\<not> clash pat (pat @ zs)"
  by (induction pat) auto

lemma guarded_append: "guarded pat a \<Longrightarrow> guarded pat b \<Longrightarrow> guarded pat (a @ b)"
  by (induction a) (auto simp: clash_append)

lemma guarded_suffix: "guarded pat (a @ b) \<Longrightarrow> guarded pat b"
  by (induction a) auto

lemma guarded_no_lt: "60 \<notin> set s \<Longrightarrow> guarded pat s"
  by (induction s) auto

lemma guarded_not_sublist: "guarded pat s \<Longrightarrow> \<not> sublist (60 # pat) s"
proof
  assume g: "guarded pat s" and "sublist (60 # pat) s"
  then obtain ps ss where "s = ps @ (60 # pat) @ ss" by (auto simp: sublist_def)
  with g have "guarded pat (ps @ (60 # pat @ ss))" by simp
  then have "guarded pat (60 # pat @ ss)" by (rule guarded_suffix)
  then show False by (simp add: clash_self)
qed

lemma guarded_concat: "(\<And>x. x \<in> set xs \<Longrightarrow> guarded pat x) \<Longrightarrow> guarded pat (concat xs)"
  by (induction xs) (auto simp: guarded_append)

lemma guarded_join:
  "(\<And>x. x \<in> set xs \<Longrightarrow> guarded pat x) \<Longrightarrow> guarded pat sep \<Longrightarrow> guarded pat (join sep xs)"
  by (induction sep xs rule: join.induct) (auto simp: guarded_append)

subsection \<open>Escaping\<close>

lemma escapeChar_no_lt: "60 \<notin> set (escapeChar c)"
  by (simp add: escapeChar_def str_def)

lemma escapeHtml_no_lt: "60 \<notin> set (escapeHtml t)"
  by (induction t) (auto simp: escapeHtml_def escapeChar_no_lt)

lemma escapeHtml_plain: "set (escapeHtml t) \<inter> {60, 62, 34, 39} = {}"
proof -
  have "set (escapeChar c) \<inter> {60, 62, 34, 39} = {}" for c
    by (simp add: escapeChar_def str_def)
  then show ?thesis by (induction t) (auto simp: escapeHtml_def)
qed

lemma escapeHtml_Cons: "escapeHtml (c # t) = escapeChar c @ escapeHtml t"
  by (simp add: escapeHtml_def)

lemma unescape_escapeChar: "unescapeHtml (escapeChar c @ r) = c # unescapeHtml r"
  by (simp add: escapeChar_def str_def)

lemma unescape_escape: "unescapeHtml (escapeHtml t) = t"
  by (induction t) (simp_all add: escapeHtml_Cons unescape_escapeChar escapeHtml_def)

lemma guarded_escapeHtml: "guarded pat (escapeHtml t)"
  by (simp add: guarded_no_lt escapeHtml_no_lt)

lemma decimal_digits: "set (decimal n) \<subseteq> {48..57}"
proof (induction n rule: decimal.induct)
  case (1 n)
  show ?case
  proof (cases "n < 10")
    case True
    then show ?thesis by (subst decimal.simps) simp
  next
    case False
    have "n mod 10 < 10" by simp
    then have "48 + n mod 10 \<in> {48..57}" by simp
    with False 1 show ?thesis by (subst decimal.simps) auto
  qed
qed

lemma decimal_no_lt: "60 \<notin> set (decimal n)"
  using decimal_digits [of n] by auto

lemma monthName_no_lt: "60 \<notin> set (monthName m)"
  by (cases m) (simp_all add: str_def)

lemma formatDate_no_lt: "60 \<notin> set (formatDate d)"
  by (simp add: formatDate_def decimal_no_lt monthName_no_lt) (simp add: str_def)

lemma getStyles_no_lt: "60 \<notin> set getStyles"
  by (simp add: getStyles_def str_def)

lemma orEmpty_Inr:
  "orEmpty r = Inr v \<Longrightarrow> (\<exists>w. r = Inr w \<and> (v = w \<or> v = JString []))"
  by (auto simp: orEmpty_def split: sum.splits if_splits)

lemma htmlContent_guarded:
  assumes "htmlContent tag s = Inr v"
    and "guarded pat (str ''<'' @ str tag @ str ''>'')"
    and "guarded pat (str ''</'' @ str tag @ str ''>'')"
  shows "guarded pat (toString v)"
proof -
  from assms(1) obtain c where
    "v = JString ((str ''<'' @ str tag @ str ''>'') @ escapeHtml c @ (str ''</'' @ str tag @ str ''>''))"
    by (auto simp: htmlContent_def split: option.splits)
  with assms(2,3) show ?thesis
    by (simp only: toString_def jsval.case guarded_append guarded_escapeHtml)
qed

lemma htmlItems_guarded:
  assumes "htmlItems tag s = Inr v"
    and "guarded pat (str ''<'' @ str tag @ str ''>'')"
    and "guarded pat (str ''</'' @ str tag @ str ''>'')"
    and "guarded pat (str ''<li>'')" and "guarded pat (str ''</li>'')"
  shows "guarded pat (toString v)"
proof -
  from assms(1) obtain xs where
    v: "v = JString ((str ''<'' @ str tag @ str ''>'') @
           concat (map (\<lambda>item. str ''<li>'' @ escapeHtml item @ str ''</li>'') xs) @
           (str ''</'' @ str tag @ str ''>''))"
    by (auto simp: htmlItems_def split: option.splits)
  have "guarded pat (concat (map (\<lambda>item. str ''<li>'' @ escapeHtml item @ str ''</li>'') xs))"
    using assms(4,5) by (intro guarded_concat) (auto simp: guarded_append guarded_escapeHtml)
  with assms(2,3) v show ?thesis
    by (simp only: toString_def jsval.case guarded_append)
qed

lemma dispatchMiss_guarded: "dispatchMiss name = Inr v \<Longrightarrow> guarded pat (toString v)"
  by (auto simp: dispatchMiss_def inheritedCall_def orEmpty_def truthy_def toString_def str_def
      split: if_splits option.splits sum.splits intro!: guarded_no_lt)

lemma guarded_empty_value: "guarded pat (toString (JString []))"
  by (simp add: toString_def)

lemma mapE_Inr:
  "mapE f xs = Inr ys \<Longrightarrow> y \<in> set ys \<Longrightarrow> \<exists>x\<in>set xs. f x = Inr y"
  by (induction xs arbitrary: ys) (auto split: sum.splits)

lemma htmlContent_guarded_markup:
  assumes "htmlContent tag s = Inr v" and "\<And>x. x \<in> set sectionMarkup \<Longrightarrow> guarded pat x"
    and "tag \<in> set [''h1'', ''h2'', ''h3'', ''h4'', ''p'', ''ul'', ''ol'', ''blockquote'', ''li'']"
  shows "guarded pat (toString v)"
proof -
  from assms(3) have "str ''<'' @ str tag @ str ''>'' \<in> set sectionMarkup"
    "str ''</'' @ str tag @ str ''>'' \<in> set sectionMarkup"
    unfolding sectionMarkup_def by auto
  with assms(2) have "guarded pat (str ''<'' @ str tag @ str ''>'')"
    "guarded pat (str ''</'' @ str tag @ str ''>'')" by blast+
  with assms(1) show ?thesis by (intro htmlContent_guarded)
qed

lemma htmlItems_guarded_markup:
  assumes "htmlItems tag s = Inr v" and "\<And>x. x \<in> set sectionMarkup \<Longrightarrow> guarded pat x"
    and "tag \<in> set [''h1'', ''h2'', ''h3'', ''h4'', ''p'', ''ul'', ''ol'', ''blockquote'', ''li'']"
  shows "guarded pat (toString v)"
proof -
  from assms(3) have "str ''<'' @ str tag @ str ''>'' \<in> set sectionMarkup"
    "str ''</'' @ str tag @ str ''>'' \<in> set sectionMarkup"
    unfolding sectionMarkup_def by auto
  moreover have "str ''<'' @ str ''li'' @ str ''>'' \<in> set sectionMarkup"
    "str ''</'' @ str ''li'' @ str ''>'' \<in> set sectionMarkup"
    unfolding sectionMarkup_def by auto
  ultimately have "guarded pat (str ''<'' @ str tag @ str ''>'')"
    "guarded pat (str ''</'' @ str tag @ str ''>'')"
    "guarded pat (str ''<'' @ str ''li'' @ str ''>'')"
    "guarded pat (str ''</'' @ str ''li'' @ str ''>'')"
    using assms(2) by blast+
  moreover have "str ''<'' @ str ''li'' @ str ''>'' = str ''<li>''"
    "str ''</'' @ str ''li'' @ str ''>'' = str ''</li>''" by (simp_all add: str_def)
  ultimately show ?thesis using assms(1) by (intro htmlItems_guarded) simp_all
qed

lemma renderSection_guarded_markup:
  assumes "renderSection s = Inr v" and "\<And>x. x \<in> set sectionMarkup \<Longrightarrow> guarded pat x"
  shows "guarded pat (toString v)"
  using assms(1) unfolding renderSection_def Let_def
  by (auto split: if_splits dest!: orEmpty_Inr
      intro: htmlContent_guarded_markup [OF _ assms(2)] htmlItems_guarded_markup [OF _ assms(2)]
        dispatchMiss_guarded
      simp: guarded_empty_value)

lemma renderSections_guarded_markup:
  assumes "renderSections secs = Inr body" and "\<And>x. x \<in> set sectionMarkup \<Longrightarrow> guarded pat x"
    and "guarded pat (str ''\<newline>'')"
  shows "guarded pat body"
proof -
  from assms(1) obtain vs where vs: "mapE renderSection secs = Inr vs"
    and body: "body = join (str ''\<newline>'') (map toString vs)"
    by (auto simp: renderSections_def mapJoin_def split: sum.splits)
  have "guarded pat x" if "x \<in> set (map toString vs)" for x
    using that mapE_Inr [OF vs] renderSection_guarded_markup [OF _ assms(2)] by auto
  then show ?thesis unfolding body using assms(3) by (rule guarded_join)
qed

lemma sectionMarkup_footerTag: "x \<in> set sectionMarkup \<Longrightarrow> guarded footerTag x"
  by (auto simp: sectionMarkup_def footerTag_def str_def)

lemma sectionMarkup_script: "x \<in> set sectionMarkup \<Longrightarrow> guarded (str ''script'') x"
  by (auto simp: sectionMarkup_def str_def)

lemma renderSection_guarded:
  "renderSection s = Inr v \<Longrightarrow> guarded (str ''script'') (toString v)"
  by (rule renderSection_guarded_markup) (simp_all add: sectionMarkup_script)

lemma renderSections_guarded:
  "renderSections secs = Inr body \<Longrightarrow> guarded (str ''script'') body"
  by (rule renderSections_guarded_markup) (simp_all add: sectionMarkup_script, simp add: str_def)

lemma guarded_formatDate: "guarded pat (formatDate d)"
  by (simp add: guarded_no_lt formatDate_no_lt)

lemma guarded_getStyles: "guarded pat getStyles"
  by (simp add: guarded_no_lt getStyles_no_lt)

lemma renderHeader_guarded: "guarded (str ''script'') (renderHeader now c)"
  unfolding renderHeader_def
  by (intro guarded_append guarded_escapeHtml guarded_formatDate) (simp_all add: str_def)

lemma renderFooter_guarded: "guarded (str ''script'') (renderFooter ft)"
  unfolding renderFooter_def
  by (intro guarded_append guarded_escapeHtml) (simp_all add: str_def)

lemma generateHTML_guarded:
  assumes "generateHTML now c opts = Inr out"
  shows "guarded (str ''script'') out"
proof -
  from assms obtain body where b: "renderSections (sections c) = Inr body"
    and out: "out =
      str ''\<newline>  <!DOCTYPE html>\<newline>  <html lang=\"de\">\<newline>  <head>\<newline>'' @
      str ''    <meta charset=\"UTF-8\">\<newline>    <title>'' @ escapeHtml (title c) @
      str ''</title>\<newline>    <style>'' @ getStyles @
      str ''</style>\<newline>  </head>\<newline>  <body>\<newline>    '' @
      renderHeader now c @ str ''\<newline>    '' @ body @ str ''\<newline>    '' @
      renderFooter (footerText opts) @
      str ''\<newline>  </body>\<newline>  </html>\<newline>''"
    by (auto simp: generateHTML_def split: sum.splits)
  from b have "guarded (str ''script'') body" by (rule renderSections_guarded)
  then show ?thesis unfolding out
    by (intro guarded_append guarded_escapeHtml guarded_getStyles renderHeader_guarded
        renderFooter_guarded) (simp_all add: str_def)
qed

lemma script_pattern: "str ''<script'' = 60 # str ''script''"
  by (simp add: str_def)

lemma htmlContent_orEmpty: "orEmpty (htmlContent tag s) = htmlContent tag s"
  by (simp add: orEmpty_def htmlContent_def truthy_def str_def split: option.splits)

lemma htmlItems_orEmpty: "orEmpty (htmlItems tag s) = htmlItems tag s"
  by (simp add: orEmpty_def htmlItems_def truthy_def str_def split: option.splits)

lemma renderSection_escapes:
  assumes "tpl (stype s) \<in> set htmlTypes" and "renderSection s = Inr v"
  shows "(\<exists>tag c. content s = Some c \<and>
            v = JString (str ''<'' @ str tag @ str ''>'' @ escapeHtml c @
                         str ''</'' @ str tag @ str ''>''))
       \<or> (\<exists>tag xs. items s = Some xs \<and>
            v = JString (str ''<'' @ str tag @ str ''>'' @
                         concat (map (\<lambda>item. str ''<li>'' @ escapeHtml item @ str ''</li>'') xs) @
                         str ''</'' @ str tag @ str ''>''))"
proof -
  have c: "htmlContent tag s = Inr v \<Longrightarrow> ?thesis" for tag
    by (auto simp: htmlContent_def split: option.splits)
  have i: "htmlItems tag s = Inr v \<Longrightarrow> ?thesis" for tag
    by (auto simp: htmlItems_def split: option.splits)
  from assms have "\<exists>tag. htmlContent tag s = Inr v \<or> htmlItems tag s = Inr v"
    unfolding renderSection_def Let_def htmlContent_orEmpty htmlItems_orEmpty htmlTypes_def
    by (auto split: if_splits)
  then show ?thesis using c i by blast
qed

text \<open>
  Claim C6. In the styled-document renderer all text passes through \<open>escapeHtml\<close>: a
  section of a type the renderer knows is rendered as markup around the escaped text or
  the escaped items.
  Escaped text contains none of \<open><\<close>, \<open>>\<close>, the double quote and the apostrophe, and
  unescaping it gives the original text back. Whatever the texts of a document are, a
  rendered section and the whole generated document contain no \<open><script\<close>: the only
  \<open><\<close> left are those of the renderer's own markup.
\<close>

theorem html_text_is_escaped:
  "unescapeHtml (escapeHtml t) = t
   \<and> set (escapeHtml t) \<inter> {60, 62, 34, 39} = {}
   \<and> \<not> sublist (str ''<script'') (escapeHtml t)
   \<and> (renderSection s = Inr v \<longrightarrow> \<not> sublist (str ''<script'') (toString v))
   \<and> (generateHTML now c opts = Inr out \<longrightarrow> \<not> sublist (str ''<script'') out)
   \<and> (tpl (stype s) \<in> set htmlTypes \<longrightarrow> renderSection s = Inr v \<longrightarrow>
        (\<exists>tag c. content s = Some c \<and>
            v = JString (str ''<'' @ str tag @ str ''>'' @ escapeHtml c @
                         str ''</'' @ str tag @ str ''>''))
        \<or> (\<exists>tag xs. items s = Some xs \<and>
            v = JString (str ''<'' @ str tag @ str ''>'' @
                         concat (map (\<lambda>item. str ''<li>'' @ escapeHtml item @ str ''</li>'') xs) @
                         str ''</'' @ str tag @ str ''>'')))"
proof (intro conjI impI)
  show "(\<exists>tag c. content s = Some c \<and>
            v = JString (str ''<'' @ str tag @ str ''>'' @ escapeHtml c @
                         str ''</'' @ str tag @ str ''>''))
        \<or> (\<exists>tag xs. items s = Some xs \<and>
            v = JString (str ''<'' @ str tag @ str ''>'' @
                         concat (map (\<lambda>item. str ''<li>'' @ escapeHtml item @ str ''</li>'') xs) @
                         str ''</'' @ str tag @ str ''>''))"
    if "tpl (stype s) \<in> set htmlTypes" "renderSection s = Inr v"
    using that by (rule renderSection_escapes)
  show "unescapeHtml (escapeHtml t) = t" by (rule unescape_escape)
  show "set (escapeHtml t) \<inter> {60, 62, 34, 39} = {}" by (rule escapeHtml_plain)
  show "\<not> sublist (str ''<script'') (escapeHtml t)"
    unfolding script_pattern by (intro guarded_not_sublist guarded_escapeHtml)
  show "\<not> sublist (str ''<script'') (toString v)" if "renderSection s = Inr v"
    unfolding script_pattern using that by (intro guarded_not_sublist renderSection_guarded)
  show "\<not> sublist (str ''<script'') out" if "generateHTML now c opts = Inr out"
    unfolding script_pattern using that by (intro guarded_not_sublist generateHTML_guarded)
qed

theorem html_text_is_escaped_witness:
  "renderSection (contentSection (str ''paragraph'') (str ''<script>''))
     = Inr (JString (str ''<p>&lt;script&gt;</p>''))
   \<and> \<not> sublist (str ''<script'') (str ''<p>&lt;script&gt;</p>'')
   \<and> unescapeHtml (str ''&lt;script&gt;'') = str ''<script>''"
proof -
  have r: "renderSection (contentSection (str ''paragraph'') (str ''<script>''))
     = Inr (JString (str ''<p>&lt;script&gt;</p>''))"
    by (simp add: renderSection_def contentSection_def tpl_def htmlContent_def orEmpty_def
        truthy_def escapeHtml_def escapeChar_def str_def)
  have e: "escapeHtml (str ''<script>'') = str ''&lt;script&gt;''"
    by (simp add: escapeHtml_def escapeChar_def str_def)
  from html_text_is_escaped [of "str ''<script>''"
      "contentSection (str ''paragraph'') (str ''<script>'')"
      "JString (str ''<p>&lt;script&gt;</p>'')"]
  show ?thesis using r e by (simp add: toString_def)
qed

lemma unique_occurrence:
  assumes pre: "guarded pat pre" and rest: "guarded pat rest" and pat: "60 \<notin> set pat"
    and eq: "pre @ (60 # pat) @ rest = p @ (60 # pat) @ s"
  shows "p = pre"
proof -
  from eq consider
      (shorter) us where "pre = p @ us" "us @ (60 # pat) @ rest = (60 # pat) @ s"
    | (longer) us where "pre @ us = p" "(60 # pat) @ rest = us @ (60 # pat) @ s"
    by (auto simp: append_eq_append_conv2)
  then show ?thesis
  proof cases
    case shorter
    show ?thesis
    proof (cases us)
      case Nil
      with shorter show ?thesis by simp
    next
      case (Cons u us')
      with shorter(2) have u: "u = 60" and t: "us' @ (60 # pat) @ rest = pat @ s" by simp_all
      from pre shorter(1) Cons u have "guarded pat (p @ (60 # us'))" by simp
      then have "guarded pat (60 # us')" by (rule guarded_suffix)
      then have "clash pat us'" by simp
      then have "clash pat (us' @ (60 # pat) @ rest)" by (rule clash_append)
      with t show ?thesis by (simp add: clash_self)
    qed
  next
    case longer
    show ?thesis
    proof (cases us)
      case Nil
      with longer show ?thesis by simp
    next
      case (Cons u us')
      with longer(2) have t: "pat @ rest = us' @ (60 # pat) @ s" by simp
      then consider
          (inside) vs where "pat = us' @ vs" "vs @ rest = (60 # pat) @ s"
        | (after) vs where "pat @ vs = us'" "rest = vs @ (60 # pat) @ s"
        by (auto simp: append_eq_append_conv2)
      then show ?thesis
      proof cases
        case inside
        show ?thesis
        proof (cases vs)
          case Nil
          with inside(2) have "sublist (60 # pat) rest" by (auto simp: sublist_def intro: exI [of _ "[]"])
          with rest show ?thesis using guarded_not_sublist by blast
        next
          case (Cons v vs')
          with inside(2) have "v = 60" by simp
          with inside(1) Cons pat show ?thesis by simp
        qed
      next
        case after
        then have "sublist (60 # pat) rest" by (auto simp: sublist_def)
        with rest show ?thesis using guarded_not_sublist by blast
      qed
    qed
  qed
qed

section \<open>Footers\<close>

lemma markdownFooter_cases:
  "markdownFooter None = [] \<and> markdownFooter (Some []) = [] \<and>
   (t \<noteq> [] \<longrightarrow> markdownFooter (Some t) = str ''\<newline>---\<newline>\<newline>'' @ t @ str ''\<newline>'')"
  by (simp add: markdownFooter_def)

lemma plainFooter_cases:
  "plainFooter None = [] \<and> plainFooter (Some []) = [] \<and>
   (t \<noteq> [] \<longrightarrow>
      plainFooter (Some t) =
        str ''\<newline>'' @ replicate 50 9472 @ str ''\<newline>\<newline>'' @ t @ str ''\<newline>'')"
  by (simp add: plainFooter_def)

text \<open>
  Markdown and plain text, for every document: the output ends with the footer block,
  which is empty when \<open>footerText\<close> is absent or empty.
\<close>

lemma generateMarkdown_footer:
  "generateMarkdown now c opts =
     map_sum id
       (\<lambda>body. str ''# '' @ title c @ str ''\<newline>\<newline>'' @
                str ''**Source:** '' @ url (metadata c) @ str ''\<newline>'' @
                str ''**Generated:** '' @ formatDate now @ str ''\<newline>\<newline>'' @
                body @ markdownFooter (footerText opts))
       (mapJoin renderSectionAsMarkdown (sections c))"
  by (simp add: generateMarkdown_def footerGiven_def js_or_def markdownFooter_def
      split: sum.splits option.splits)

lemma generatePlainText_footer:
  "generatePlainText now c opts =
     map_sum id
       (\<lambda>body. title c @ str ''\<newline>'' @ replicate (length (title c)) 61 @
                str ''\<newline>\<newline>'' @
                str ''Source: '' @ url (metadata c) @ str ''\<newline>'' @
                str ''Generated: '' @ formatDate now @ str ''\<newline>\<newline>'' @
                body @ plainFooter (footerText opts))
       (mapJoin renderSectionAsPlainText (sections c))"
  by (simp add: generatePlainText_def footerGiven_def js_or_def plainFooter_def
      split: sum.splits option.splits)

text \<open>
  Styled document, for every document: the footer element is part of the output
  whatever \<open>footerText\<close> is, and it occurs at one position only.
\<close>

lemma generateHTML_footer:
  "generateHTML now c opts =
     map_sum id (\<lambda>body. htmlBeforeFooter now c body @ renderFooter (footerText opts) @ htmlAfterFooter)
       (renderSections (sections c))"
  by (simp add: generateHTML_def htmlBeforeFooter_def htmlAfterFooter_def split: sum.splits)

lemma renderFooter_tag:
  "renderFooter ft =
     str ''\<newline>  '' @ (60 # footerTag) @ str ''\<newline>    <p>'' @
     escapeHtml (case ft of None \<Rightarrow> [] | Some t \<Rightarrow> t) @ str ''</p>\<newline>  </div>\<newline>''"
  by (simp add: renderFooter_def footerTag_def str_def)

lemma renderHeader_guarded_footer: "guarded footerTag (renderHeader now c)"
  unfolding renderHeader_def
  by (intro guarded_append guarded_escapeHtml guarded_formatDate)
    (simp_all add: str_def footerTag_def)

lemma htmlBeforeFooter_guarded:
  assumes "renderSections secs = Inr body"
  shows "guarded footerTag (htmlBeforeFooter now c body @ str ''\<newline>  '')"
proof -
  have "guarded footerTag (str ''\<newline>'')" by (simp add: str_def)
  with assms sectionMarkup_footerTag have "guarded footerTag body"
    by (rule renderSections_guarded_markup)
  then show ?thesis unfolding htmlBeforeFooter_def
    by (intro guarded_append guarded_escapeHtml guarded_getStyles renderHeader_guarded_footer)
      (simp_all add: str_def footerTag_def)
qed

lemma footer_rest_guarded:
  "guarded footerTag (str ''\<newline>    <p>'' @ escapeHtml t @ str ''</p>\<newline>  </div>\<newline>'' @ htmlAfterFooter)"
  unfolding htmlAfterFooter_def
  by (intro guarded_append guarded_escapeHtml) (simp_all add: str_def footerTag_def)

lemma footerTag_no_lt: "60 \<notin> set footerTag"
  by (simp add: footerTag_def str_def)

lemma generateHTML_footer_once:
  assumes "generateHTML now c opts = Inr out" and "out = p @ (60 # footerTag) @ s"
  shows "\<exists>body. renderSections (sections c) = Inr body \<and>
           p = htmlBeforeFooter now c body @ str ''\<newline>  ''"
proof -
  from assms(1) obtain body where b: "renderSections (sections c) = Inr body"
    and out: "out = htmlBeforeFooter now c body @ renderFooter (footerText opts) @ htmlAfterFooter"
    by (cases "renderSections (sections c)") (auto simp: generateHTML_footer)
  let ?t = "case footerText opts of None \<Rightarrow> [] | Some t \<Rightarrow> t"
  let ?pre = "htmlBeforeFooter now c body @ str ''\<newline>  ''"
  let ?rest = "str ''\<newline>    <p>'' @ escapeHtml ?t @ str ''</p>\<newline>  </div>\<newline>'' @ htmlAfterFooter"
  from out assms(2) have "?pre @ (60 # footerTag) @ ?rest = p @ (60 # footerTag) @ s"
    by (simp add: renderFooter_tag)
  with htmlBeforeFooter_guarded [OF b] footer_rest_guarded footerTag_no_lt
  have "p = ?pre" by (rule unique_occurrence)
  with b show ?thesis by blast
qed

lemma renderSections_docPlain: "renderSections (sections docPlain) = Inr []"
  by (simp add: renderSections_def mapJoin_def docPlain_def)

lemma formatDate_date0: "formatDate date0 = str ''15. Januar 2025''"
  by (simp add: formatDate_def date0_def decimal.simps str_def)

text \<open>
  Claim C3. The claim fails on the code for the styled document. With an empty and with
  an absent \<open>footerText\<close>, \<open>generateHTML\<close> still emits the footer element, around an
  empty paragraph, while \<open>generateMarkdown\<close> and \<open>generatePlainText\<close> emit no separator
  and no footer for the same document. With the footer text \<open>Acme\<close> each of the three
  emits its footer once.
\<close>

theorem empty_footer_in_html:
  "generateHTML date0 docPlain \<lparr>footerText = Some []\<rparr> =
     Inr (htmlBeforeFooter date0 docPlain [] @
          str ''\<newline>  <div class=\"footer\">\<newline>    <p></p>\<newline>  </div>\<newline>'' @
          htmlAfterFooter)
   \<and> generateHTML date0 docPlain \<lparr>footerText = None\<rparr> =
     Inr (htmlBeforeFooter date0 docPlain [] @
          str ''\<newline>  <div class=\"footer\">\<newline>    <p></p>\<newline>  </div>\<newline>'' @
          htmlAfterFooter)
   \<and> generateMarkdown date0 docPlain \<lparr>footerText = Some []\<rparr> =
     Inr (str ''# T\<newline>\<newline>**Source:** u\<newline>**Generated:** 15. Januar 2025\<newline>\<newline>'')
   \<and> generateMarkdown date0 docPlain \<lparr>footerText = None\<rparr> =
     Inr (str ''# T\<newline>\<newline>**Source:** u\<newline>**Generated:** 15. Januar 2025\<newline>\<newline>'')
   \<and> generatePlainText date0 docPlain \<lparr>footerText = Some []\<rparr> =
     Inr (str ''T\<newline>=\<newline>\<newline>Source: u\<newline>Generated: 15. Januar 2025\<newline>\<newline>'')
   \<and> generatePlainText date0 docPlain \<lparr>footerText = None\<rparr> =
     Inr (str ''T\<newline>=\<newline>\<newline>Source: u\<newline>Generated: 15. Januar 2025\<newline>\<newline>'')
   \<and> generateHTML date0 docPlain \<lparr>footerText = Some (str ''Acme'')\<rparr> =
     Inr (htmlBeforeFooter date0 docPlain [] @
          str ''\<newline>  <div class=\"footer\">\<newline>    <p>Acme</p>\<newline>  </div>\<newline>'' @
          htmlAfterFooter)
   \<and> generateMarkdown date0 docPlain \<lparr>footerText = Some (str ''Acme'')\<rparr> =
     Inr (str ''# T\<newline>\<newline>**Source:** u\<newline>**Generated:** 15. Januar 2025\<newline>\<newline>'' @
          str ''\<newline>---\<newline>\<newline>Acme\<newline>'')
   \<and> generatePlainText date0 docPlain \<lparr>footerText = Some (str ''Acme'')\<rparr> =
     Inr (str ''T\<newline>=\<newline>\<newline>Source: u\<newline>Generated: 15. Januar 2025\<newline>\<newline>'' @
          str ''\<newline>'' @ replicate 50 9472 @ str ''\<newline>\<newline>Acme\<newline>'')"
proof -
  have html: "generateHTML date0 docPlain \<lparr>footerText = ft\<rparr> =
     Inr (htmlBeforeFooter date0 docPlain [] @ renderFooter ft @ htmlAfterFooter)" for ft
    by (simp add: generateHTML_def htmlBeforeFooter_def htmlAfterFooter_def
        renderSections_docPlain)
  have foot: "renderFooter None =
        str ''\<newline>  <div class=\"footer\">\<newline>    <p></p>\<newline>  </div>\<newline>''"
    "renderFooter (Some []) =
        str ''\<newline>  <div class=\"footer\">\<newline>    <p></p>\<newline>  </div>\<newline>''"
    "renderFooter (Some (str ''Acme'')) =
        str ''\<newline>  <div class=\"footer\">\<newline>    <p>Acme</p>\<newline>  </div>\<newline>''"
    by (simp_all add: renderFooter_def escapeHtml_def escapeChar_def str_def)
  have md: "generateMarkdown date0 docPlain \<lparr>footerText = Some []\<rparr> =
     Inr (str ''# T\<newline>\<newline>**Source:** u\<newline>**Generated:** 15. Januar 2025\<newline>\<newline>'')"
    "generateMarkdown date0 docPlain \<lparr>footerText = None\<rparr> =
     Inr (str ''# T\<newline>\<newline>**Source:** u\<newline>**Generated:** 15. Januar 2025\<newline>\<newline>'')"
    "generateMarkdown date0 docPlain \<lparr>footerText = Some (str ''Acme'')\<rparr> =
     Inr (str ''# T\<newline>\<newline>**Source:** u\<newline>**Generated:** 15. Januar 2025\<newline>\<newline>'' @
          str ''\<newline>---\<newline>\<newline>Acme\<newline>'')"
    by (simp_all add: generateMarkdown_def mapJoin_def footerGiven_def js_or_def
        formatDate_date0 docPlain_def str_def)
  have pl: "generatePlainText date0 docPlain \<lparr>footerText = Some []\<rparr> =
     Inr (str ''T\<newline>=\<newline>\<newline>Source: u\<newline>Generated: 15. Januar 2025\<newline>\<newline>'')"
    "generatePlainText date0 docPlain \<lparr>footerText = None\<rparr> =
     Inr (str ''T\<newline>=\<newline>\<newline>Source: u\<newline>Generated: 15. Januar 2025\<newline>\<newline>'')"
    "generatePlainText date0 docPlain \<lparr>footerText = Some (str ''Acme'')\<rparr> =
     Inr (str ''T\<newline>=\<newline>\<newline>Source: u\<newline>Generated: 15. Januar 2025\<newline>\<newline>'' @
          str ''\<newline>'' @ replicate 50 9472 @ str ''\<newline>\<newline>Acme\<newline>'')"
    by (simp_all add: generatePlainText_def mapJoin_def footerGiven_def js_or_def
        formatDate_date0 docPlain_def str_def)
  show ?thesis by (simp only: html foot md pl simp_thms)
qed

section \<open>The generation date\<close>

lemma scrapedAt_unused:
  "generateMarkdown now (c\<lparr>metadata := (metadata c)\<lparr>scrapedAt := t\<rparr>\<rparr>) opts
     = generateMarkdown now c opts
   \<and> generatePlainText now (c\<lparr>metadata := (metadata c)\<lparr>scrapedAt := t\<rparr>\<rparr>) opts
     = generatePlainText now c opts
   \<and> generateHTML now (c\<lparr>metadata := (metadata c)\<lparr>scrapedAt := t\<rparr>\<rparr>) opts
     = generateHTML now c opts"
  by (simp add: generateMarkdown_def generatePlainText_def generateHTML_def renderHeader_def
      split: sum.splits)

lemma same_date_same_output:
  assumes "formatDate now = formatDate now'"
  shows "generateMarkdown now c opts = generateMarkdown now' c opts
   \<and> generatePlainText now c opts = generatePlainText now' c opts
   \<and> generateHTML now c opts = generateHTML now' c opts"
  using assms
  by (simp add: generateMarkdown_def generatePlainText_def generateHTML_def renderHeader_def
      split: sum.splits)

lemma other_date_other_markdown:
  assumes "formatDate now \<noteq> formatDate now'" and "generateMarkdown now c opts = Inr out"
  shows "generateMarkdown now' c opts \<noteq> Inr out"
  using assms by (auto simp: generateMarkdown_def split: sum.splits)

lemma other_date_other_plain:
  assumes "formatDate now \<noteq> formatDate now'" and "generatePlainText now c opts = Inr out"
  shows "generatePlainText now' c opts \<noteq> Inr out"
  using assms by (auto simp: generatePlainText_def split: sum.splits)

lemma other_date_other_html:
  assumes "formatDate now \<noteq> formatDate now'" and "generateHTML now c opts = Inr out"
  shows "generateHTML now' c opts \<noteq> Inr out"
  using assms by (auto simp: generateHTML_def renderHeader_def split: sum.splits)

text \<open>
  Claim C4, as amended. Every renderer prints the date of the clock at render time
  (\<open>formatDate()\<close> without an argument) and never reads the captured \<open>scrapedAt\<close>:
  changing \<open>scrapedAt\<close> changes no output. Two renders of one document with the same
  options are identical when the clock shows the same date, and a render that succeeds
  differs from every render made under a date that prints differently.
\<close>

theorem render_date_is_clock:
  "generateMarkdown now (c\<lparr>metadata := (metadata c)\<lparr>scrapedAt := t\<rparr>\<rparr>) opts
     = generateMarkdown now c opts
   \<and> generatePlainText now (c\<lparr>metadata := (metadata c)\<lparr>scrapedAt := t\<rparr>\<rparr>) opts
     = generatePlainText now c opts
   \<and> generateHTML now (c\<lparr>metadata := (metadata c)\<lparr>scrapedAt := t\<rparr>\<rparr>) opts
     = generateHTML now c opts
   \<and> (formatDate now = formatDate now' \<longrightarrow>
        generateMarkdown now c opts = generateMarkdown now' c opts
        \<and> generatePlainText now c opts = generatePlainText now' c opts
        \<and> generateHTML now c opts = generateHTML now' c opts)
   \<and> (formatDate now \<noteq> formatDate now' \<longrightarrow>
        (generateMarkdown now c opts = Inr out \<longrightarrow> generateMarkdown now' c opts \<noteq> Inr out)
        \<and> (generatePlainText now c opts = Inr out \<longrightarrow> generatePlainText now' c opts \<noteq> Inr out)
        \<and> (generateHTML now c opts = Inr out \<longrightarrow> generateHTML now' c opts \<noteq> Inr out))"
  using scrapedAt_unused [where now = now and c = c and t = t and opts = opts]
    same_date_same_output [where now = now and now' = now' and c = c and opts = opts]
    other_date_other_markdown [where now = now and now' = now' and c = c and opts = opts and out = out]
    other_date_other_plain [where now = now and now' = now' and c = c and opts = opts and out = out]
    other_date_other_html [where now = now and now' = now' and c = c and opts = opts and out = out]
  by blast

lemma formatDate_date1: "formatDate date1 = str ''16. Januar 2025''"
  by (simp add: formatDate_def date1_def decimal.simps str_def)

lemma generateMarkdown_date0:
  "generateMarkdown date0 docPlain \<lparr>footerText = None\<rparr> =
     Inr (str ''# T\<newline>\<newline>**Source:** u\<newline>**Generated:** 15. Januar 2025\<newline>\<newline>'')"
  by (simp add: generateMarkdown_def mapJoin_def footerGiven_def js_or_def formatDate_date0
      docPlain_def) (simp add: str_def)

lemma generateMarkdown_date1:
  "generateMarkdown date1 docPlain \<lparr>footerText = None\<rparr> =
     Inr (str ''# T\<newline>\<newline>**Source:** u\<newline>**Generated:** 16. Januar 2025\<newline>\<newline>'')"
  by (simp add: generateMarkdown_def mapJoin_def footerGiven_def js_or_def formatDate_date1
      docPlain_def) (simp add: str_def)

theorem render_date_is_clock_witness:
  "formatDate date0 \<noteq> formatDate date1
   \<and> generateMarkdown date0 docPlain \<lparr>footerText = None\<rparr> =
       Inr (str ''# T\<newline>\<newline>**Source:** u\<newline>**Generated:** 15. Januar 2025\<newline>\<newline>'')
   \<and> generateMarkdown date1 docPlain \<lparr>footerText = None\<rparr> \<noteq>
       Inr (str ''# T\<newline>\<newline>**Source:** u\<newline>**Generated:** 15. Januar 2025\<newline>\<newline>'')
   \<and> formatDate date0 = formatDate (date0\<lparr>day := 15\<rparr>)
   \<and> generateMarkdown date0 docPlain \<lparr>footerText = None\<rparr>
       = generateMarkdown (date0\<lparr>day := 15\<rparr>) docPlain \<lparr>footerText = None\<rparr>"
proof -
  have d: "formatDate date0 \<noteq> formatDate date1"
    by (simp add: formatDate_date0 formatDate_date1 str_def)
  have s: "formatDate date0 = formatDate (date0\<lparr>day := 15\<rparr>)"
    by (simp add: date0_def)
  note a = render_date_is_clock [where now = date0 and now' = date1 and c = docPlain
      and opts = "\<lparr>footerText = None\<rparr>" and t = "[]"
      and out = "str ''# T\<newline>\<newline>**Source:** u\<newline>**Generated:** 15. Januar 2025\<newline>\<newline>''"]
  note b = render_date_is_clock [where now = date0 and now' = "date0\<lparr>day := 15\<rparr>"
      and c = docPlain and opts = "\<lparr>footerText = None\<rparr>" and t = "[]" and out = "[]"]
  from a d generateMarkdown_date0
  have "generateMarkdown date1 docPlain \<lparr>footerText = None\<rparr> \<noteq>
       Inr (str ''# T\<newline>\<newline>**Source:** u\<newline>**Generated:** 15. Januar 2025\<newline>\<newline>'')"
    by blast
  moreover from b s
  have "generateMarkdown date0 docPlain \<lparr>footerText = None\<rparr>
       = generateMarkdown (date0\<lparr>day := 15\<rparr>) docPlain \<lparr>footerText = None\<rparr>"
    by blast
  ultimately show ?thesis using d s generateMarkdown_date0 by blast
qed

text \<open>
  Counterexample to the claim as stated: one document, captured on 15 January and
  rendered on the 15th and on the 16th, gives two different outputs in each format.
\<close>

theorem render_date_depends_on_clock:
  "scrapedAt (metadata docPlain) = str ''2025-01-15T12:00:00.000Z''
   \<and> generateMarkdown date0 docPlain \<lparr>footerText = None\<rparr> =
       Inr (str ''# T\<newline>\<newline>**Source:** u\<newline>**Generated:** 15. Januar 2025\<newline>\<newline>'')
   \<and> generateMarkdown date1 docPlain \<lparr>footerText = None\<rparr> =
       Inr (str ''# T\<newline>\<newline>**Source:** u\<newline>**Generated:** 16. Januar 2025\<newline>\<newline>'')
   \<and> generateMarkdown date0 docPlain \<lparr>footerText = None\<rparr>
       \<noteq> generateMarkdown date1 docPlain \<lparr>footerText = None\<rparr>
   \<and> generatePlainText date0 docPlain \<lparr>footerText = None\<rparr>
       \<noteq> generatePlainText date1 docPlain \<lparr>footerText = None\<rparr>
   \<and> generateHTML date0 docPlain \<lparr>footerText = None\<rparr>
       \<noteq> generateHTML date1 docPlain \<lparr>footerText = None\<rparr>"
proof -
  have "generateMarkdown date0 docPlain \<lparr>footerText = None\<rparr>
       \<noteq> generateMarkdown date1 docPlain \<lparr>footerText = None\<rparr>"
    by (simp add: generateMarkdown_date0 generateMarkdown_date1) (simp add: str_def)
  moreover have "generatePlainText date0 docPlain \<lparr>footerText = None\<rparr>
       \<noteq> generatePlainText date1 docPlain \<lparr>footerText = None\<rparr>"
    by (simp add: generatePlainText_def mapJoin_def formatDate_date0 formatDate_date1 docPlain_def)
      (simp add: str_def)
  moreover have "generateHTML date0 docPlain \<lparr>footerText = None\<rparr>
       \<noteq> generateHTML date1 docPlain \<lparr>footerText = None\<rparr>"
    by (simp add: generateHTML_def renderSections_def mapJoin_def renderHeader_def
        formatDate_date0 formatDate_date1 docPlain_def) (simp add: str_def)
  moreover have "scrapedAt (metadata docPlain) = str ''2025-01-15T12:00:00.000Z''"
    by (simp add: docPlain_def)
  ultimately show ?thesis using generateMarkdown_date0 generateMarkdown_date1 by blast
qed

section \<open>Section types and the three renderers\<close>

lemmas render_defs =
  renderSection_def renderSectionAsMarkdown_def renderSectionAsPlainText_def
  htmlContent_def htmlItems_def mdHeading_def underlined_def plainLine_def itemLines_def
  numbered_def dispatchMiss_def inheritedCall_def orEmpty_def truthy_def tpl_def
  contentSection_def itemsSection_def bareSection_def escapeHtml_def escapeChar_def str_def

lemma unknown_type_renders_empty:
  assumes "tpl (stype s) \<notin> set textTypes" and "inheritedCall (tpl (stype s)) = None"
  shows "renderSection s = Inr (JString [])
    \<and> renderSectionAsMarkdown s = Inr (JString [])
    \<and> renderSectionAsPlainText s = Inr (JString [])"
  using assms
  by (simp add: textTypes_def htmlTypes_def renderSection_def renderSectionAsMarkdown_def
      renderSectionAsPlainText_def dispatchMiss_def)

text \<open>
  Claim C2. The claim fails on the code: the table of \<open>renderSection\<close> has no entry for
  \<open>h5\<close> and \<open>h6\<close>, so a heading of level 5 or 6, which extraction produces and the
  Markdown and plain-text renderers print, is rendered as the empty string in the styled
  document.
\<close>

theorem deep_headings_missing_in_html:
  "extractSections docDeep = Inr [contentSection (str ''h5'') (str ''Deep'')]
   \<and> renderSection (contentSection (str ''h5'') (str ''Deep'')) = Inr (JString [])
   \<and> renderSectionAsMarkdown (contentSection (str ''h5'') (str ''Deep''))
       = Inr (JString (str ''##### Deep\<newline>''))
   \<and> renderSectionAsPlainText (contentSection (str ''h5'') (str ''Deep''))
       = Inr (JString (str ''Deep\<newline>''))
   \<and> renderSection (contentSection (str ''h6'') (str ''Deep'')) = Inr (JString [])
   \<and> renderSectionAsMarkdown (contentSection (str ''h6'') (str ''Deep''))
       = Inr (JString (str ''###### Deep\<newline>''))
   \<and> renderSectionAsPlainText (contentSection (str ''h6'') (str ''Deep''))
       = Inr (JString (str ''Deep\<newline>''))"
proof -
  have "extractSections docDeep = Inr [contentSection (str ''h5'') (str ''Deep'')]"
    by (simp add: docDeep_def extract_defs)
  then show ?thesis by (simp add: render_defs)
qed

text \<open>
  Claim C9. The claim fails on the code for type tags that name a property of
  \<open>Object.prototype\<close>: the lookup in the table finds the inherited property, so
  \<open>toString\<close> renders as \<open>[object Object]\<close>, \<open>constructor\<close> returns an object and
  \<open>__proto__\<close> throws a TypeError, in all three renderers. A tag like \<open>unknown\<close> does
  render as the empty string.
\<close>

theorem inherited_type_not_empty:
  "renderSection (contentSection (str ''toString'') (str ''Test''))
       = Inr (JString (str ''[object Object]''))
   \<and> renderSectionAsMarkdown (contentSection (str ''toString'') (str ''Test''))
       = Inr (JString (str ''[object Object]''))
   \<and> renderSectionAsPlainText (contentSection (str ''toString'') (str ''Test''))
       = Inr (JString (str ''[object Object]''))
   \<and> renderSection (contentSection (str ''constructor'') (str ''Test'')) = Inr JObject
   \<and> renderSection (contentSection (str ''__proto__'') (str ''Test'')) = Inl TypeError
   \<and> renderSectionAsMarkdown (contentSection (str ''__proto__'') (str ''Test'')) = Inl TypeError
   \<and> renderSectionAsPlainText (contentSection (str ''__proto__'') (str ''Test'')) = Inl TypeError
   \<and> renderSection (contentSection (str ''unknown'') (str ''Test'')) = Inr (JString [])"
  by (simp add: render_defs)

end
